theory Spec2Isabelle
  imports Main
begin

section \<open>Values of the host language\<close>

text \<open>
  The class \<open>Effect\<close> of \<open>src/effect.js\<close> is dynamically typed: every argument, option
  and descriptor field may hold any value. Numbers are the whole numbers (timestamps and
  durations in milliseconds) together with \<open>NaN\<close> and the two infinities; \<open>Fin n\<close> stands
  for the number \<open>n\<close>, taken to be exactly representable. Function values are opaque
  callbacks named by a number; objects are plain records, listed in the order in which
  \<open>for ... in\<close> and \<open>Object.keys\<close> enumerate their own keys.
\<close>

datatype jsnum = Fin int | NaN | PInf | NInf

datatype jsval =
    Undefined
  | Null
  | Bool bool
  | Num jsnum
  | Str string
  | Fn nat
  | Obj "(string \<times> jsval) list"

datatype error =
    ReferenceError string
  | TypeError string
  | Thrown jsval

text \<open>\<open>!v\<close>: the values that count as false in a condition.\<close>

fun falsy :: "jsval \<Rightarrow> bool" where
  "falsy Undefined = True"
| "falsy Null = True"
| "falsy (Bool b) = (b = False)"
| "falsy (Num (Fin n)) = (n = 0)"
| "falsy (Num NaN) = True"
| "falsy (Num PInf) = False"
| "falsy (Num NInf) = False"
| "falsy (Str s) = (s = [])"
| "falsy (Fn k) = False"
| "falsy (Obj ps) = False"

definition truthy :: "jsval \<Rightarrow> bool" where
  "truthy v = (\<not> falsy v)"

text \<open>\<open>a || b\<close> yields \<open>a\<close> when it is truthy and \<open>b\<close> otherwise.\<close>

definition js_or :: "jsval \<Rightarrow> jsval \<Rightarrow> jsval" where
  "js_or a b = (if truthy a then a else b)"

definition nullish :: "jsval \<Rightarrow> bool" where
  "nullish v = (case v of Undefined \<Rightarrow> True | Null \<Rightarrow> True | _ \<Rightarrow> False)"

subsection \<open>Decimal numerals and the conversions between strings and numbers\<close>

definition digit_char :: "nat \<Rightarrow> char" where
  "digit_char d = char_of (48 + d)"

definition is_digit :: "char \<Rightarrow> bool" where
  "is_digit c = (48 \<le> (of_char c :: nat) \<and> (of_char c :: nat) \<le> 57)"

definition digit_val :: "char \<Rightarrow> nat" where
  "digit_val c = of_char c - 48"

fun digits :: "nat \<Rightarrow> string" where
  "digits n = (if n < 10 then [digit_char n] else digits (n div 10) @ [digit_char (n mod 10)])"

declare digits.simps [simp del]

definition digits_val :: "string \<Rightarrow> nat" where
  "digits_val ds = foldl (\<lambda>a c. 10 * a + digit_val c) 0 ds"

text \<open>White space: tab, line feed, vertical tab, form feed, carriage return, space.\<close>

definition is_ws :: "char \<Rightarrow> bool" where
  "is_ws c = ((of_char c :: nat) \<in> {9, 10, 11, 12, 13, 32})"

text \<open>
  \<open>Number.prototype.toString\<close> on a whole number: plain decimal digits below \<open>10^21\<close>,
  and from there on the scientific form \<open>d.ddde+k\<close> with the trailing zeros of the
  mantissa dropped.
\<close>

definition exp_form :: "nat \<Rightarrow> string" where
  "exp_form m =
     (let ds = digits m;
          mant = rev (dropWhile (\<lambda>c. c = CHR ''0'') (rev ds))
      in (case mant of
            [] \<Rightarrow> ds
          | d # frac \<Rightarrow>
              d # (if frac = [] then [] else CHR ''.'' # frac) @ ''e+'' @ digits (length ds - 1)))"

definition nat_to_string :: "nat \<Rightarrow> string" where
  "nat_to_string m = (if m < 10 ^ 21 then digits m else exp_form m)"

fun num_to_string :: "jsnum \<Rightarrow> string" where
  "num_to_string (Fin n) = (if n < 0 then CHR ''-'' # nat_to_string (nat (- n)) else nat_to_string (nat n))"
| "num_to_string NaN = ''NaN''"
| "num_to_string PInf = ''Infinity''"
| "num_to_string NInf = ''-Infinity''"

text \<open>
  \<open>String(v)\<close>. A plain object prints as \<open>[object Object]\<close>; a callback prints as its
  source text, which starts with a letter or a parenthesis.
\<close>

fun ToString :: "jsval \<Rightarrow> string" where
  "ToString Undefined = ''undefined''"
| "ToString Null = ''null''"
| "ToString (Bool b) = (if b then ''true'' else ''false'')"
| "ToString (Num n) = num_to_string n"
| "ToString (Str s) = s"
| "ToString (Fn k) = ''function () { [code] }''"
| "ToString (Obj ps) = ''[object Object]''"

text \<open>
  \<open>parseInt(s, 10)\<close>: leading white space is skipped, one sign is read, and the longest
  run of decimal digits that follows is the result; no digit at all gives \<open>NaN\<close>.
\<close>

definition parseInt_str :: "string \<Rightarrow> jsnum" where
  "parseInt_str s =
     (let t = dropWhile is_ws s;
          neg = (case t of [] \<Rightarrow> False | c # r \<Rightarrow> c = CHR ''-'');
          u = (case t of [] \<Rightarrow> [] | c # r \<Rightarrow> if c = CHR ''-'' \<or> c = CHR ''+'' then r else t);
          ds = takeWhile is_digit u
      in if ds = [] then NaN
         else if neg then Fin (- int (digits_val ds)) else Fin (int (digits_val ds)))"

definition parseInt :: "jsval \<Rightarrow> jsnum" where
  "parseInt v = parseInt_str (ToString v)"

text \<open>
  \<open>Number(s)\<close> on a string, for the whole-number literals: the string is trimmed, the
  empty string is \<open>0\<close>, a signed run of decimal digits is its value, \<open>Infinity\<close> is
  read with its sign, and any other text is \<open>NaN\<close>. Literals written with a fraction,
  an exponent or a radix prefix denote numbers this development does not represent.
\<close>

definition trim :: "string \<Rightarrow> string" where
  "trim s = rev (dropWhile is_ws (rev (dropWhile is_ws s)))"

definition unsigned_literal :: "string \<Rightarrow> jsnum" where
  "unsigned_literal r =
     (if r = ''Infinity'' then PInf
      else if r = [] then NaN
      else if list_all is_digit r then Fin (int (digits_val r))
      else NaN)"

fun negate :: "jsnum \<Rightarrow> jsnum" where
  "negate (Fin n) = Fin (- n)"
| "negate NaN = NaN"
| "negate PInf = NInf"
| "negate NInf = PInf"

definition StringToNumber :: "string \<Rightarrow> jsnum" where
  "StringToNumber s =
     (case trim s of
        [] \<Rightarrow> Fin 0
      | c # r \<Rightarrow>
          if c = CHR ''-'' then negate (unsigned_literal r)
          else if c = CHR ''+'' then unsigned_literal r
          else unsigned_literal (c # r))"

fun ToNumber :: "jsval \<Rightarrow> jsnum" where
  "ToNumber Undefined = NaN"
| "ToNumber Null = Fin 0"
| "ToNumber (Bool b) = (if b then Fin 1 else Fin 0)"
| "ToNumber (Num n) = n"
| "ToNumber (Str s) = StringToNumber s"
| "ToNumber (Fn k) = NaN"
| "ToNumber (Obj ps) = NaN"

definition isNaN :: "jsval \<Rightarrow> bool" where
  "isNaN v = (ToNumber v = NaN)"

text \<open>Subtraction and the comparison \<open><\<close> on numbers.\<close>

fun num_sub :: "jsnum \<Rightarrow> jsnum \<Rightarrow> jsnum" where
  "num_sub (Fin a) (Fin b) = Fin (a - b)"
| "num_sub NaN y = NaN"
| "num_sub x NaN = NaN"
| "num_sub PInf PInf = NaN"
| "num_sub NInf NInf = NaN"
| "num_sub PInf y = PInf"
| "num_sub NInf y = NInf"
| "num_sub x PInf = NInf"
| "num_sub x NInf = PInf"

fun num_lt :: "jsnum \<Rightarrow> jsnum \<Rightarrow> bool" where
  "num_lt (Fin a) (Fin b) = (a < b)"
| "num_lt NaN y = False"
| "num_lt x NaN = False"
| "num_lt PInf y = False"
| "num_lt x PInf = True"
| "num_lt x NInf = False"
| "num_lt NInf y = True"

section \<open>Objects, callbacks and the target entity\<close>

text \<open>
  Reading a property. \<open>read_prop\<close> is the read on a value that is neither \<open>null\<close> nor
  \<open>undefined\<close>; \<open>get_prop\<close> adds the \<open>TypeError\<close> of a read on those two. A string
  has its length and its characters under their indices; numbers, booleans and callbacks
  carry none of the properties this class reads.
\<close>

definition str_index :: "string \<Rightarrow> string \<Rightarrow> nat option" where
  "str_index s k =
     (case filter (\<lambda>i. digits i = k) [0..<length s] of [] \<Rightarrow> None | i # r \<Rightarrow> Some i)"

fun read_prop :: "jsval \<Rightarrow> string \<Rightarrow> jsval" where
  "read_prop (Obj ps) k = (case map_of ps k of None \<Rightarrow> Undefined | Some v \<Rightarrow> v)"
| "read_prop (Str s) k =
     (if k = ''length'' then Num (Fin (int (length s)))
      else case str_index s k of None \<Rightarrow> Undefined | Some i \<Rightarrow> Str [s ! i])"
| "read_prop v k = Undefined"

definition get_prop :: "jsval \<Rightarrow> string \<Rightarrow> error + jsval" where
  "get_prop v k =
     (if nullish v then Inl (TypeError (''Cannot read property '' @ k @ '' of '' @ ToString v))
      else Inr (read_prop v k))"

text \<open>The own enumerable keys, in the order of \<open>for ... in\<close> and \<open>Object.keys\<close>.\<close>

fun own_keys :: "jsval \<Rightarrow> string list" where
  "own_keys (Obj ps) = map fst ps"
| "own_keys (Str s) = map digits [0..<length s]"
| "own_keys v = []"

text \<open>
  The collaborators of the class are parameters. \<open>Effects_get\<close> is the registry lookup
  \<open>Effects.get(target, type, options)\<close> of the module \<open>./effects\<close>; \<open>run k args\<close> is
  the outcome of calling callback \<open>k\<close> on \<open>args\<close>: the value it returns or the error
  it throws. The world records, in order, every call made to the registry and to a
  callback, every subscription of a listener to an event of the target that is still
  in place, and every modifier installed on an attribute of the target (the last one
  installed under a name is the one in force).
\<close>

record host =
  Effects_get :: "jsval \<Rightarrow> jsval \<Rightarrow> jsval \<Rightarrow> error + jsval"
  run :: "nat \<Rightarrow> jsval list \<Rightarrow> error + jsval"

datatype call = RegistryGet jsval jsval jsval | Invoke nat "jsval list"

datatype listener = Handler jsval | QuitHook

record world =
  calls :: "call list"
  listeners :: "(string \<times> listener) list"
  attr_modifiers :: "(string \<times> jsval) list"

definition call_fn :: "host \<Rightarrow> jsval \<Rightarrow> jsval list \<Rightarrow> world \<Rightarrow> (error + jsval) \<times> world" where
  "call_fn h f args w =
     (case f of
        Fn k \<Rightarrow> (run h k args, w\<lparr>calls := calls w @ [Invoke k args]\<rparr>)
      | _ \<Rightarrow> (Inl (TypeError ''not a function''), w))"

definition call_method ::
  "host \<Rightarrow> jsval \<Rightarrow> string \<Rightarrow> jsval list \<Rightarrow> world \<Rightarrow> (error + jsval) \<times> world" where
  "call_method h obj m args w =
     (case get_prop obj m of
        Inl e \<Rightarrow> (Inl e, w)
      | Inr f \<Rightarrow> call_fn h f args w)"

text \<open>
  Modelled from the spec: the target entity is not part of \<open>src/\<close>. Its capability, as
  the specification lists it, is \<open>on(eventName, handler)\<close>, \<open>removeListener(eventName)\<close>
  and \<open>setModifier(attributeName, fn)\<close>: \<open>on\<close> subscribes a handler to an event,
  \<open>removeListener\<close> drops the subscriptions of an event, \<open>setModifier\<close> installs a
  modifier under an attribute name. A call of a method that the target does not have
  is the \<open>TypeError\<close> of calling a value that is no function.
\<close>

definition target_on :: "jsval \<Rightarrow> string \<Rightarrow> listener \<Rightarrow> world \<Rightarrow> (error + unit) \<times> world" where
  "target_on target event l w =
     (case get_prop target ''on'' of
        Inl e \<Rightarrow> (Inl e, w)
      | Inr f \<Rightarrow>
          (case f of
             Fn k \<Rightarrow> (Inr (), w\<lparr>listeners := listeners w @ [(event, l)]\<rparr>)
           | _ \<Rightarrow> (Inl (TypeError ''target.on is not a function''), w)))"

definition target_removeListener :: "jsval \<Rightarrow> string \<Rightarrow> world \<Rightarrow> (error + unit) \<times> world" where
  "target_removeListener target event w =
     (case get_prop target ''removeListener'' of
        Inl e \<Rightarrow> (Inl e, w)
      | Inr f \<Rightarrow>
          (case f of
             Fn k \<Rightarrow> (Inr (), w\<lparr>listeners := filter (\<lambda>p. fst p \<noteq> event) (listeners w)\<rparr>)
           | _ \<Rightarrow> (Inl (TypeError ''target.removeListener is not a function''), w)))"

definition target_setModifier :: "jsval \<Rightarrow> string \<Rightarrow> jsval \<Rightarrow> world \<Rightarrow> (error + unit) \<times> world" where
  "target_setModifier target attr modifier w =
     (case get_prop target ''setModifier'' of
        Inl e \<Rightarrow> (Inl e, w)
      | Inr f \<Rightarrow>
          (case f of
             Fn k \<Rightarrow> (Inr (), w\<lparr>attr_modifiers := attr_modifiers w @ [(attr, modifier)]\<rparr>)
           | _ \<Rightarrow> (Inl (TypeError ''target.setModifier is not a function''), w)))"

section \<open>The class Effect\<close>

text \<open>
  The private fields \<open>this[_id]\<close>, \<open>this[_options]\<close>, \<open>this[_type]\<close>, \<open>this[_target]\<close>,
  \<open>this[_elapsed]\<close>, \<open>this[_started]\<close> and \<open>this[_effect]\<close>. A field that was never
  assigned reads as \<open>undefined\<close>.
\<close>

record effect =
  this_id :: jsval
  this_options :: jsval
  this_type :: jsval
  this_target :: jsval
  this_elapsed :: jsval
  this_started :: jsval
  this_effect :: jsval

text \<open>
  The symbols that key the private fields are the constants the module declares in its
  lines 6 to 12. An identifier that is declared nowhere raises a \<open>ReferenceError\<close> when
  it is evaluated.
\<close>

datatype field = F_id | F_options | F_type | F_target | F_elapsed | F_started | F_effect

definition symbols :: "(string \<times> field) list" where
  "symbols =
     [(''_id'', F_id), (''_options'', F_options), (''_type'', F_type), (''_target'', F_target),
      (''_elapsed'', F_elapsed), (''_started'', F_started), (''_effect'', F_effect)]"

definition not_defined :: "string \<Rightarrow> error" where
  "not_defined x = ReferenceError (x @ '' is not defined'')"

definition symbol :: "string \<Rightarrow> error + field" where
  "symbol x = (case map_of symbols x of None \<Rightarrow> Inl (not_defined x) | Some f \<Rightarrow> Inr f)"

fun field_of :: "effect \<Rightarrow> field \<Rightarrow> jsval" where
  "field_of this F_id = this_id this"
| "field_of this F_options = this_options this"
| "field_of this F_type = this_type this"
| "field_of this F_target = this_target this"
| "field_of this F_elapsed = this_elapsed this"
| "field_of this F_started = this_started this"
| "field_of this F_effect = this_effect this"

text \<open>
  A variable is looked up among the bindings that are in scope where it stands; the
  module itself binds only \<open>Effects\<close>, the seven symbols, \<open>Effect\<close> and \<open>validate\<close>.
\<close>

definition variable :: "(string \<times> jsval) list \<Rightarrow> string \<Rightarrow> error + jsval" where
  "variable scope x = (case map_of scope x of None \<Rightarrow> Inl (not_defined x) | Some v \<Rightarrow> Inr v)"

subsection \<open>Construction\<close>

text \<open>The helper \<open>validate\<close>, lines 127 to 143; \<open>||\<close> evaluates its right side only when the left is false.\<close>

definition validate :: "jsval \<Rightarrow> jsval \<Rightarrow> jsval \<Rightarrow> jsval \<Rightarrow> error + unit" where
  "validate eid options etype target =
     (if falsy eid then
        Inl (ReferenceError ''Effects must have an ID to prevent stacking.'')
      else if falsy options \<or> length (own_keys options) = 0 then
        Inl (ReferenceError ''Effects must take an options object to pass to applicable functions when evaluating effects.'')
      else if falsy etype then
        Inl (ReferenceError ''Effects must have a generic effect type.'')
      else if falsy target then
        Inl (ReferenceError ''Effects must have a target.'')
      else if falsy (read_prop target ''addEffect'') then
        Inl (TypeError ''Effects can only target players or NPCs.'')
      else Inr ())"

text \<open>
  The constructor of the class, lines 20 to 30. Its one argument is destructured into \<open>id\<close>,
  \<open>options\<close>, \<open>type\<close> and \<open>target\<close>; the fields \<open>_started\<close> and \<open>_elapsed\<close> are not
  assigned.
\<close>

definition constructor :: "host \<Rightarrow> jsval \<Rightarrow> world \<Rightarrow> (error + effect) \<times> world" where
  "constructor h arg w =
     (if nullish arg then (Inl (TypeError ''Cannot destructure the argument''), w)
      else
        let eid = read_prop arg ''id'';
            options = read_prop arg ''options'';
            etype = read_prop arg ''type'';
            target = read_prop arg ''target''
        in
        case validate eid options etype target of
          Inl e \<Rightarrow> (Inl e, w)
        | Inr u \<Rightarrow>
            (let w1 = w\<lparr>calls := calls w @ [RegistryGet target etype options]\<rparr> in
             case Effects_get h target etype options of
               Inl e \<Rightarrow> (Inl e, w1)
             | Inr eff \<Rightarrow>
                 (let this = \<lparr>this_id = eid, this_options = options, this_type = etype,
                              this_target = target, this_elapsed = Undefined,
                              this_started = Undefined, this_effect = eff\<rparr>
                  in
                  case call_method h eff ''activate'' [options, target] w1 of
                    (Inl e, w2) \<Rightarrow> (Inl e, w2)
                  | (Inr r, w2) \<Rightarrow>
                      if truthy (read_prop options ''activate'') then
                        (case call_method h options ''activate'' [target] w2 of
                           (Inl e, w3) \<Rightarrow> (Inl e, w3)
                         | (Inr r', w3) \<Rightarrow> (Inr this, w3))
                      else (Inr this, w2))))"

subsection \<open>Accessors, timing and validity\<close>

text \<open>
  The constructor stores only options that passed \<open>validate\<close> and a behavior descriptor
  whose \<open>activate\<close> was called, so neither is \<open>null\<close> or \<open>undefined\<close> and the reads
  below cannot fail.
\<close>

definition getId :: "effect \<Rightarrow> jsval" where
  "getId this = this_id this"

definition getOptions :: "effect \<Rightarrow> jsval" where
  "getOptions this = this_options this"

definition getType :: "effect \<Rightarrow> jsval" where
  "getType this = this_type this"

definition getTarget :: "effect \<Rightarrow> jsval" where
  "getTarget this = this_target this"

text \<open>Lines 79 to 81 read the field keyed by \<open>_event\<close>.\<close>

definition getName :: "effect \<Rightarrow> error + jsval" where
  "getName this =
     (case symbol ''_event'' of Inl e \<Rightarrow> Inl e | Inr f \<Rightarrow> get_prop (field_of this f) ''name'')"

definition getDescription :: "effect \<Rightarrow> error + jsval" where
  "getDescription this =
     (case symbol ''_event'' of Inl e \<Rightarrow> Inl e | Inr f \<Rightarrow> get_prop (field_of this f) ''desc'')"

definition getAura :: "effect \<Rightarrow> error + jsval" where
  "getAura this =
     (case symbol ''_event'' of Inl e \<Rightarrow> Inl e | Inr f \<Rightarrow> get_prop (field_of this f) ''aura'')"

definition getDuration :: "effect \<Rightarrow> jsnum" where
  "getDuration this =
     (let n = parseInt (read_prop (this_options this) ''duration'')
      in if truthy (Num n) then n else PInf)"

text \<open>\<open>now\<close> is the value of \<open>Date.now()\<close> at the call.\<close>

definition getElapsed :: "int \<Rightarrow> effect \<Rightarrow> jsval" where
  "getElapsed now this =
     (if isNaN (this_started this) then Null
      else Num (num_sub (Fin now) (ToNumber (this_started this))))"

definition getModifiers :: "effect \<Rightarrow> jsval" where
  "getModifiers this = js_or (read_prop (this_effect this) ''modifiers'') (Obj [])"

definition setElapsed :: "int \<Rightarrow> effect \<Rightarrow> effect" where
  "setElapsed now this = this\<lparr>this_elapsed := getElapsed now this\<rparr>"

definition isTemporary :: "effect \<Rightarrow> bool" where
  "isTemporary this = num_lt (getDuration this) PInf"

definition isCurrent :: "int \<Rightarrow> effect \<Rightarrow> bool" where
  "isCurrent now this =
     (if isTemporary this then num_lt (ToNumber (getElapsed now this)) (getDuration this)
      else True)"

text \<open>
  Lines 103 to 111. \<open>&&\<close> yields its left side when that is false and its right side
  otherwise, so the predicate is called only for an effect that is current.
\<close>

definition checkPredicate :: "host \<Rightarrow> effect \<Rightarrow> world \<Rightarrow> (error + jsval) \<times> world" where
  "checkPredicate h this w =
     (let options = this_options this;
          predicate = read_prop options ''predicate''
      in if truthy predicate then call_fn h predicate [] w else (Inr (Bool True), w))"

definition isValid :: "host \<Rightarrow> int \<Rightarrow> effect \<Rightarrow> world \<Rightarrow> (error + jsval) \<times> world" where
  "isValid h now this w =
     (if isCurrent now this then checkPredicate h this w else (Inr (Bool False), w))"

subsection \<open>Wiring: init and the quit handler\<close>

text \<open>Lines 43 to 46: the timing anchor.\<close>

definition init_timing :: "int \<Rightarrow> effect \<Rightarrow> effect" where
  "init_timing now this =
     (let options = this_options this in
      if truthy (read_prop options ''duration'') then
        this\<lparr>this_started := js_or (read_prop options ''started'') (Num (Fin now)),
             this_elapsed := js_or (read_prop options ''elapsed'') (Num (Fin 0))\<rparr>
      else this)"

text \<open>Lines 57 to 61: the loop over the keys of \<open>events\<close>.\<close>

fun register_events :: "jsval \<Rightarrow> jsval \<Rightarrow> string list \<Rightarrow> world \<Rightarrow> (error + unit) \<times> world" where
  "register_events target events [] w = (Inr (), w)"
| "register_events target events (event # rest) w =
     (let handler = read_prop events event in
      if falsy handler then
        (Inl (ReferenceError ''An event was registered for an effect, but it had no handler.''), w)
      else
        case target_on target event (Handler handler) w of
          (Inl e, w1) \<Rightarrow> (Inl e, w1)
        | (Inr u, w1) \<Rightarrow> register_events target events rest w1)"

text \<open>Lines 64 to 68: the loop over the keys of \<open>modifiers\<close>.\<close>

fun install_modifiers :: "jsval \<Rightarrow> jsval \<Rightarrow> string list \<Rightarrow> world \<Rightarrow> (error + unit) \<times> world" where
  "install_modifiers target modifiers [] w = (Inr (), w)"
| "install_modifiers target modifiers (attr # rest) w =
     (let modifier = read_prop modifiers attr in
      if falsy modifier then
        (Inl (ReferenceError ''An attribute modifier was registered but it had no callback.''), w)
      else
        case target_setModifier target attr modifier w of
          (Inl e, w1) \<Rightarrow> (Inl e, w1)
        | (Inr u, w1) \<Rightarrow> install_modifiers target modifiers rest w1)"

text \<open>
  \<open>init\<close>, lines 39 to 70. An assignment made before an error is thrown stays: the
  effect and the world are returned in both cases.
\<close>

definition init :: "int \<Rightarrow> effect \<Rightarrow> world \<Rightarrow> (error + unit) \<times> effect \<times> world" where
  "init now this w =
     (let target = this_target this; options = this_options this in
      if nullish options then
        (Inl (TypeError (''Cannot read property duration of '' @ ToString options)), this, w)
      else
        let this1 = init_timing now this;
            effect = this_effect this1
        in
        case target_on target ''quit'' QuitHook w of
          (Inl e, w1) \<Rightarrow> (Inl e, this1, w1)
        | (Inr u, w1) \<Rightarrow>
            (case get_prop effect ''events'' of
               Inl e \<Rightarrow> (Inl e, this1, w1)
             | Inr ev \<Rightarrow>
                 (let events = js_or ev (Obj []) in
                  case register_events target events (own_keys events) w1 of
                    (Inl e, w2) \<Rightarrow> (Inl e, this1, w2)
                  | (Inr u', w2) \<Rightarrow>
                      (let modifiers = read_prop effect ''modifiers'' in
                       case install_modifiers target modifiers (own_keys modifiers) w2 of
                         (r, w3) \<Rightarrow> (r, this1, w3)))))"

text \<open>The closure of lines 50 to 53, run when the target emits \<open>quit\<close>.\<close>

definition quit_handler :: "host \<Rightarrow> int \<Rightarrow> effect \<Rightarrow> world \<Rightarrow> (error + unit) \<times> effect \<times> world" where
  "quit_handler h now this w =
     (let this1 = setElapsed now this in
      case call_method h (this_effect this1) ''deactivate'' [this_options this1, this_target this1] w of
        (Inl e, w1) \<Rightarrow> (Inl e, this1, w1)
      | (Inr r, w1) \<Rightarrow> (Inr (), this1, w1))"

subsection \<open>Deactivation\<close>

text \<open>
  Lines 120 to 122, the loop over the keys of \<open>events\<close>; \<open>scope\<close> holds the variables
  of the method that are visible at the loop, to which the loop adds \<open>event\<close>.
\<close>

fun remove_listeners :: "(string \<times> jsval) list \<Rightarrow> string list \<Rightarrow> world \<Rightarrow> (error + unit) \<times> world" where
  "remove_listeners scope [] w = (Inr (), w)"
| "remove_listeners scope (event # rest) w =
     (case variable ((''event'', Str event) # scope) ''target'' of
        Inl e \<Rightarrow> (Inl e, w)
      | Inr target \<Rightarrow>
          (case target_removeListener target event w of
             (Inl e, w1) \<Rightarrow> (Inl e, w1)
           | (Inr u, w1) \<Rightarrow> remove_listeners scope rest w1))"

text \<open>
  \<open>deactivate\<close>, lines 114 to 123. The method declares no parameter and, before line
  119, no variable: the identifiers \<open>effect\<close> and \<open>target\<close> of lines 119 and 121 are
  looked up in an empty scope.
\<close>

definition deactivate :: "host \<Rightarrow> effect \<Rightarrow> world \<Rightarrow> (error + unit) \<times> world" where
  "deactivate h this w =
     (case call_method h (this_effect this) ''deactivate'' [] w of
        (Inl e, w1) \<Rightarrow> (Inl e, w1)
      | (Inr r, w1) \<Rightarrow>
          (case (if nullish (this_options this) then
                   (Inl (TypeError (''Cannot read property deactivate of '' @ ToString (this_options this))), w1)
                 else if truthy (read_prop (this_options this) ''deactivate'') then
                   call_method h (this_options this) ''deactivate'' [] w1
                 else (Inr Undefined, w1)) of
             (Inl e, w2) \<Rightarrow> (Inl e, w2)
           | (Inr r', w2) \<Rightarrow>
               (let scope = [] in
                case variable scope ''effect'' of
                  Inl e \<Rightarrow> (Inl e, w2)
                | Inr effect \<Rightarrow>
                    (case get_prop effect ''events'' of
                       Inl e \<Rightarrow> (Inl e, w2)
                     | Inr ev \<Rightarrow>
                         (let events = js_or ev (Obj []) in
                          remove_listeners ((''events'', events) # scope) (own_keys events) w2)))))"

subsection \<open>The life of an effect\<close>

text \<open>
  After construction the owner of an effect calls \<open>init\<close>, \<open>setElapsed\<close> and
  \<open>deactivate\<close>, and the target emits \<open>quit\<close>, in any order and at any time. An error
  thrown by one call is the caller's to handle; what the call had already changed stays.
\<close>

datatype op = Init int | SetElapsed int | Quit int | Deactivate

fun step :: "host \<Rightarrow> op \<Rightarrow> effect \<times> world \<Rightarrow> effect \<times> world" where
  "step h (Init now) (this, w) = snd (init now this w)"
| "step h (SetElapsed now) (this, w) = (setElapsed now this, w)"
| "step h (Quit now) (this, w) = snd (quit_handler h now this w)"
| "step h Deactivate (this, w) = (this, snd (deactivate h this w))"

definition run_ops :: "host \<Rightarrow> op list \<Rightarrow> effect \<times> world \<Rightarrow> effect \<times> world" where
  "run_ops h ops s = foldl (\<lambda>s' x. step h x s') s ops"

section \<open>Error kinds and a concrete scenario\<close>

text \<open>
  The caller passes one object literal \<open>{ id, options, type, target }\<close>.
\<close>

definition args :: "jsval \<Rightarrow> jsval \<Rightarrow> jsval \<Rightarrow> jsval \<Rightarrow> jsval" where
  "args eid options etype target =
     Obj [(''id'', eid), (''options'', options), (''type'', etype), (''target'', target)]"

text \<open>
  The error kinds of the specification, section 7, are the errors the code throws: an
  error class together with its message.
\<close>

definition MissingId :: error where
  "MissingId = ReferenceError ''Effects must have an ID to prevent stacking.''"

definition MissingOptions :: error where
  "MissingOptions = ReferenceError ''Effects must take an options object to pass to applicable functions when evaluating effects.''"

definition MissingType :: error where
  "MissingType = ReferenceError ''Effects must have a generic effect type.''"

definition MissingTarget :: error where
  "MissingTarget = ReferenceError ''Effects must have a target.''"

definition UnsupportedTargetKind :: error where
  "UnsupportedTargetKind = TypeError ''Effects can only target players or NPCs.''"



text \<open>
  A player with the four methods the class relies on, a behavior descriptor with one
  event handler and one attribute modifier, and a registry that returns this descriptor
  for every type. No callback throws.
\<close>

definition demo_target :: jsval where
  "demo_target =
     Obj [(''addEffect'', Fn 0), (''on'', Fn 1), (''removeListener'', Fn 2), (''setModifier'', Fn 3)]"

definition demo_behavior :: jsval where
  "demo_behavior =
     Obj [(''activate'', Fn 10), (''deactivate'', Fn 11),
          (''events'', Obj [(''hit'', Fn 12)]),
          (''modifiers'', Obj [(''speed'', Fn 13)]),
          (''name'', Str ''Haste''), (''desc'', Str ''You move faster.''), (''aura'', Str ''haste'')]"

definition demo_host :: "jsval \<Rightarrow> host" where
  "demo_host behavior = \<lparr>Effects_get = (\<lambda>target etype options. Inr behavior), run = (\<lambda>k xs. Inr Undefined)\<rparr>"

definition demo_world :: world where
  "demo_world = \<lparr>calls = [], listeners = [], attr_modifiers = []\<rparr>"

definition demo_args :: "jsval \<Rightarrow> jsval" where
  "demo_args options = args (Str ''haste1'') options (Str ''haste'') demo_target"

text \<open>The instance that \<open>new Effect(demo_args options)\<close> yields with descriptor \<open>behavior\<close>.\<close>

definition demo_effect :: "jsval \<Rightarrow> jsval \<Rightarrow> effect" where
  "demo_effect behavior options =
     \<lparr>this_id = Str ''haste1'', this_options = options, this_type = Str ''haste'',
      this_target = demo_target, this_elapsed = Undefined, this_started = Undefined,
      this_effect = behavior\<rparr>"

text \<open>A malformed descriptor: its one event has no handler and its one modifier no callback.\<close>

definition broken_behavior :: jsval where
  "broken_behavior =
     Obj [(''activate'', Fn 10), (''deactivate'', Fn 11),
          (''events'', Obj [(''hit'', Null)]),
          (''modifiers'', Obj [(''speed'', Null)])]"

text \<open>A descriptor whose event has its handler and whose modifier has no callback.\<close>

definition no_callback_behavior :: jsval where
  "no_callback_behavior =
     Obj [(''activate'', Fn 10), (''deactivate'', Fn 11),
          (''events'', Obj [(''hit'', Fn 12)]),
          (''modifiers'', Obj [(''speed'', Null)])]"

text \<open>
  The two mappings \<open>init\<close> walks: \<open>effect.events || {}\<close> of line 55 and
  \<open>effect.modifiers\<close> of line 63.
\<close>

definition events_of :: "effect \<Rightarrow> jsval" where
  "events_of this = js_or (read_prop (this_effect this) ''events'') (Obj [])"

definition modifiers_of :: "effect \<Rightarrow> jsval" where
  "modifiers_of this = read_prop (this_effect this) ''modifiers''"

text \<open>
  The state of an effect without a duration: no \<open>duration\<close> among its options and no
  timing anchor.
\<close>

definition permanent :: "effect \<Rightarrow> bool" where
  "permanent this =
     (read_prop (this_options this) ''duration'' = Undefined \<and> this_started this = Undefined)"

section \<open>Numerals: printing and parsing agree\<close>

lemma is_digit_digit_char: "d < 10 \<Longrightarrow> is_digit (digit_char d)"
  by (simp add: is_digit_def digit_char_def)

lemma digit_val_digit_char: "d < 10 \<Longrightarrow> digit_val (digit_char d) = d"
  by (simp add: digit_val_def digit_char_def)

lemma digit_not_ws: "is_digit c \<Longrightarrow> \<not> is_ws c"
  by (auto simp: is_digit_def is_ws_def)

lemma digit_not_sign: "is_digit c \<Longrightarrow> c \<noteq> CHR ''-'' \<and> c \<noteq> CHR ''+''"
  by (auto simp: is_digit_def)

lemma digits_all: "list_all is_digit (digits n)"
proof (induction n rule: digits.induct)
  case (1 n)
  show ?case
  proof (cases "n < 10")
    case True
    then show ?thesis by (simp add: digits.simps [of n] is_digit_digit_char)
  next
    case False
    with 1 show ?thesis by (simp add: digits.simps [of n] is_digit_digit_char)
  qed
qed

lemma digits_nonempty: "digits n \<noteq> []"
  by (subst digits.simps) simp

lemma digits_val_snoc: "digits_val (ds @ [c]) = 10 * digits_val ds + digit_val c"
  by (simp add: digits_val_def)

lemma digits_val_digits: "digits_val (digits n) = n"
proof (induction n rule: digits.induct)
  case (1 n)
  show ?case
  proof (cases "n < 10")
    case True
    then show ?thesis by (simp add: digits.simps [of n] digits_val_def digit_val_digit_char)
  next
    case False
    with 1 show ?thesis by (simp add: digits.simps [of n] digits_val_snoc digit_val_digit_char)
  qed
qed

lemma takeWhile_digits: "takeWhile is_digit (digits n) = digits n"
  using digits_all [of n] by (simp add: list_all_iff)

lemma parseInt_str_digits: "parseInt_str (digits n) = Fin (int n)"
proof -
  obtain c r where cr: "digits n = c # r"
    using digits_nonempty [of n] by (cases "digits n") auto
  have "is_digit c" using digits_all [of n] cr by simp
  then have c: "\<not> is_ws c" "c \<noteq> CHR ''-''" "c \<noteq> CHR ''+''"
    using digit_not_ws digit_not_sign by auto
  have tw: "takeWhile is_digit (c # r) = c # r"
    using takeWhile_digits [of n] cr by simp
  have dv: "digits_val (c # r) = n" using digits_val_digits [of n] cr by simp
  show ?thesis
    unfolding parseInt_str_def cr Let_def using c tw dv by simp
qed

lemma parseInt_str_minus_digits: "parseInt_str (CHR ''-'' # digits n) = Fin (- int n)"
proof -
  have ws: "\<not> is_ws (CHR ''-'')" by (simp add: is_ws_def)
  show ?thesis
    unfolding parseInt_str_def Let_def using ws
    by (simp add: takeWhile_digits digits_nonempty digits_val_digits)
qed

lemma parseInt_small:
  assumes "\<bar>n\<bar> < 10 ^ 21"
  shows "parseInt (Num (Fin n)) = Fin n"
proof (cases "n < 0")
  case True
  have "nat (- n) < 10 ^ 21" using assms True by (simp add: nat_less_iff)
  then show ?thesis using True
    by (simp add: parseInt_def nat_to_string_def parseInt_str_minus_digits)
next
  case False
  have "nat n < 10 ^ 21" using assms False by (simp add: nat_less_iff)
  then show ?thesis using False
    by (simp add: parseInt_def nat_to_string_def parseInt_str_digits)
qed

lemma char_of_48: "char_of (48 :: nat) = CHR ''0''"
proof -
  have "(of_char (CHR ''0'') :: nat) = 48" by simp
  then show ?thesis using char_of_char [where ?'a = nat and c = "CHR ''0''"] by simp
qed

lemma digit_char_zero: "d < 10 \<Longrightarrow> (digit_char d = CHR ''0'') = (d = 0)"
proof -
  assume d: "d < 10"
  have "digit_val (digit_char d) = d" using d by (rule digit_val_digit_char)
  moreover have "digit_val (CHR ''0'') = 0" by (simp add: digit_val_def)
  moreover have "digit_char 0 = CHR ''0''" by (simp add: digit_char_def char_of_48)
  ultimately show ?thesis by metis
qed

lemma digits_leading:
  "0 < n \<Longrightarrow> \<exists>c r. digits n = c # r \<and> is_digit c \<and> c \<noteq> CHR ''0''"
proof (induction n rule: digits.induct)
  case (1 n)
  show ?case
  proof (cases "n < 10")
    case True
    with 1(2) show ?thesis
      by (simp add: digits.simps [of n] is_digit_digit_char digit_char_zero)
  next
    case False
    then have "0 < n div 10" by simp
    with 1(1) False obtain c r where "digits (n div 10) = c # r" "is_digit c" "c \<noteq> CHR ''0''"
      by blast
    with False show ?thesis by (simp add: digits.simps [of n])
  qed
qed

lemma digit_val_pos: "is_digit c \<Longrightarrow> c \<noteq> CHR ''0'' \<Longrightarrow> 0 < digit_val c"
proof -
  assume a: "is_digit c" "c \<noteq> CHR ''0''"
  have "(of_char c :: nat) \<noteq> 48"
  proof
    assume "(of_char c :: nat) = 48"
    then have "char_of (of_char c :: nat) = (char_of (48 :: nat) :: char)" by simp
    then show False using a(2) by (simp add: char_of_48)
  qed
  then show ?thesis using a(1) by (simp add: digit_val_def is_digit_def)
qed

lemma parseInt_str_exp_form:
  assumes "0 < m"
  shows "\<exists>k. 0 < k \<and> parseInt_str (exp_form m) = Fin (int k)"
proof -
  obtain c r where cr: "digits m = c # r" and c: "is_digit c" "c \<noteq> CHR ''0''"
    using digits_leading [OF assms] by blast
  define frac where "frac = rev (dropWhile (\<lambda>c. c = CHR ''0'') (rev r))"
  have mant: "rev (dropWhile (\<lambda>c. c = CHR ''0'') (rev (c # r))) = c # frac"
    using c(2) by (simp add: dropWhile_append3 frac_def)
  define rest where "rest = (if frac = [] then [] else CHR ''.'' # frac) @ ''e+'' @ digits (length (c # r) - 1)"
  have ef: "exp_form m = c # rest"
    unfolding exp_form_def Let_def cr mant rest_def by simp
  have rest: "takeWhile is_digit rest = []"
    by (simp add: rest_def is_digit_def)
  have cc: "\<not> is_ws c" "c \<noteq> CHR ''-''" "c \<noteq> CHR ''+''"
    using c(1) digit_not_ws digit_not_sign by auto
  have "parseInt_str (c # rest) = Fin (int (digit_val c))"
    unfolding parseInt_str_def Let_def using cc c(1) rest by (simp add: digits_val_def)
  then show ?thesis using digit_val_pos [OF c] ef by auto
qed

lemma parseInt_positive:
  assumes "0 < n"
  shows "\<exists>k. 0 < k \<and> parseInt (Num (Fin n)) = Fin k"
proof (cases "n < 10 ^ 21")
  case True
  then have "parseInt (Num (Fin n)) = Fin n" using assms by (simp add: parseInt_small)
  then show ?thesis using assms by blast
next
  case False
  have "0 < nat n" using assms by simp
  then obtain k where "0 < k" "parseInt_str (exp_form (nat n)) = Fin (int k)"
    using parseInt_str_exp_form by blast
  moreover have "\<not> nat n < 10 ^ 21" using False assms by (simp add: nat_less_iff)
  ultimately show ?thesis using assms
    by (auto simp: parseInt_def nat_to_string_def)
qed

section \<open>Facts about the scenario\<close>

lemma read_args [simp]:
  "read_prop (args eid options etype target) ''id'' = eid"
  "read_prop (args eid options etype target) ''options'' = options"
  "read_prop (args eid options etype target) ''type'' = etype"
  "read_prop (args eid options etype target) ''target'' = target"
  "nullish (args eid options etype target) = False"
  by (simp_all add: args_def nullish_def)

lemma constructor_invalid:
  "validate eid options etype target = Inl e \<Longrightarrow>
     constructor h (args eid options etype target) w = (Inl e, w)"
  by (simp add: constructor_def)

lemma constructor_valid:
  "constructor h (args eid options etype target) w = (Inr this, w') \<Longrightarrow>
     validate eid options etype target = Inr ()"
  by (cases "validate eid options etype target") (simp_all add: constructor_def)

lemma error_kinds_distinct:
  "distinct [MissingId, MissingOptions, MissingType, MissingTarget, UnsupportedTargetKind]"
  by (simp add: MissingId_def MissingOptions_def MissingType_def MissingTarget_def
      UnsupportedTargetKind_def)

lemma demo_target_props [simp]:
  "falsy demo_target = False"
  "nullish demo_target = False"
  "read_prop demo_target ''addEffect'' = Fn 0"
  "read_prop demo_target ''on'' = Fn 1"
  "read_prop demo_target ''removeListener'' = Fn 2"
  "read_prop demo_target ''setModifier'' = Fn 3"
  by (simp_all add: demo_target_def nullish_def)

lemma demo_behavior_props [simp]:
  "nullish demo_behavior = False"
  "read_prop demo_behavior ''activate'' = Fn 10"
  "read_prop demo_behavior ''deactivate'' = Fn 11"
  "read_prop demo_behavior ''events'' = Obj [(''hit'', Fn 12)]"
  "read_prop demo_behavior ''modifiers'' = Obj [(''speed'', Fn 13)]"
  "read_prop demo_behavior ''name'' = Str ''Haste''"
  by (simp_all add: demo_behavior_def nullish_def)

lemma broken_behavior_props [simp]:
  "nullish broken_behavior = False"
  "read_prop broken_behavior ''activate'' = Fn 10"
  "read_prop broken_behavior ''deactivate'' = Fn 11"
  "read_prop broken_behavior ''events'' = Obj [(''hit'', Null)]"
  "read_prop broken_behavior ''modifiers'' = Obj [(''speed'', Null)]"
  by (simp_all add: broken_behavior_def nullish_def)

lemma demo_host_sel [simp]:
  "Effects_get (demo_host b) t ty os = Inr b"
  "run (demo_host b) k xs = Inr Undefined"
  by (simp_all add: demo_host_def)

lemma demo_construction:
  assumes "truthy options" "own_keys options \<noteq> []" "falsy (read_prop options ''activate'')"
    and "nullish b = False" "read_prop b ''activate'' = Fn f"
  shows "constructor (demo_host b) (demo_args options) demo_world =
           (Inr (demo_effect b options),
            \<lparr>calls = [RegistryGet demo_target (Str ''haste'') options, Invoke f [options, demo_target]],
             listeners = [], attr_modifiers = []\<rparr>)"
proof -
  have v: "validate (Str ''haste1'') options (Str ''haste'') demo_target = Inr ()"
    using assms(1,2) by (simp add: validate_def truthy_def)
  show ?thesis
    unfolding demo_args_def constructor_def
    using v assms(3,4,5)
    by (simp add: Let_def call_method_def call_fn_def get_prop_def demo_effect_def demo_world_def truthy_def)
qed

section \<open>Validation at construction\<close>

text \<open>
  C3. Construction validates its arguments in the order id, options (present and with at
  least one key), type, target, the target's \<open>addEffect\<close> capability, and stops at the
  first check that fails. The five failures are five different errors, and a failed
  check yields no instance and leaves the world as it was: the registry is not
  consulted and no callback runs. An instance is returned only when all five checks
  passed.
\<close>

theorem construction_validates_in_order:
  "(falsy eid \<longrightarrow>
      constructor h (args eid options etype target) w = (Inl MissingId, w))
   \<and> (truthy eid \<and> (falsy options \<or> own_keys options = []) \<longrightarrow>
      constructor h (args eid options etype target) w = (Inl MissingOptions, w))
   \<and> (truthy eid \<and> truthy options \<and> own_keys options \<noteq> [] \<and> falsy etype \<longrightarrow>
      constructor h (args eid options etype target) w = (Inl MissingType, w))
   \<and> (truthy eid \<and> truthy options \<and> own_keys options \<noteq> [] \<and> truthy etype \<and> falsy target \<longrightarrow>
      constructor h (args eid options etype target) w = (Inl MissingTarget, w))
   \<and> (truthy eid \<and> truthy options \<and> own_keys options \<noteq> [] \<and> truthy etype \<and> truthy target
        \<and> falsy (read_prop target ''addEffect'') \<longrightarrow>
      constructor h (args eid options etype target) w = (Inl UnsupportedTargetKind, w))
   \<and> distinct [MissingId, MissingOptions, MissingType, MissingTarget, UnsupportedTargetKind]
   \<and> (\<forall>this w'. constructor h (args eid options etype target) w = (Inr this, w') \<longrightarrow>
        truthy eid \<and> truthy options \<and> own_keys options \<noteq> [] \<and> truthy etype \<and> truthy target
        \<and> truthy (read_prop target ''addEffect''))"
proof -
  have 1: "falsy eid \<Longrightarrow> validate eid options etype target = Inl MissingId"
    by (simp add: validate_def MissingId_def)
  have 2: "truthy eid \<Longrightarrow> falsy options \<or> own_keys options = [] \<Longrightarrow>
      validate eid options etype target = Inl MissingOptions"
    by (auto simp: validate_def MissingOptions_def truthy_def)
  have 3: "truthy eid \<Longrightarrow> truthy options \<Longrightarrow> own_keys options \<noteq> [] \<Longrightarrow> falsy etype \<Longrightarrow>
      validate eid options etype target = Inl MissingType"
    by (simp add: validate_def MissingType_def truthy_def)
  have 4: "truthy eid \<Longrightarrow> truthy options \<Longrightarrow> own_keys options \<noteq> [] \<Longrightarrow> truthy etype \<Longrightarrow>
      falsy target \<Longrightarrow> validate eid options etype target = Inl MissingTarget"
    by (simp add: validate_def MissingTarget_def truthy_def)
  have 5: "truthy eid \<Longrightarrow> truthy options \<Longrightarrow> own_keys options \<noteq> [] \<Longrightarrow> truthy etype \<Longrightarrow>
      truthy target \<Longrightarrow> falsy (read_prop target ''addEffect'') \<Longrightarrow>
      validate eid options etype target = Inl UnsupportedTargetKind"
    by (simp add: validate_def UnsupportedTargetKind_def truthy_def)
  have 6: "validate eid options etype target = Inr () \<Longrightarrow>
      truthy eid \<and> truthy options \<and> own_keys options \<noteq> [] \<and> truthy etype \<and> truthy target
        \<and> truthy (read_prop target ''addEffect'')"
    by (simp add: validate_def truthy_def split: if_splits)
  show ?thesis
  proof (intro conjI impI allI)
    assume "falsy eid"
    then show "constructor h (args eid options etype target) w = (Inl MissingId, w)"
      by (simp add: 1 constructor_invalid)
  next
    assume "truthy eid \<and> (falsy options \<or> own_keys options = [])"
    then show "constructor h (args eid options etype target) w = (Inl MissingOptions, w)"
      by (simp add: 2 constructor_invalid)
  next
    assume "truthy eid \<and> truthy options \<and> own_keys options \<noteq> [] \<and> falsy etype"
    then show "constructor h (args eid options etype target) w = (Inl MissingType, w)"
      by (simp add: 3 constructor_invalid)
  next
    assume "truthy eid \<and> truthy options \<and> own_keys options \<noteq> [] \<and> truthy etype \<and> falsy target"
    then show "constructor h (args eid options etype target) w = (Inl MissingTarget, w)"
      by (simp add: 4 constructor_invalid)
  next
    assume "truthy eid \<and> truthy options \<and> own_keys options \<noteq> [] \<and> truthy etype \<and> truthy target
        \<and> falsy (read_prop target ''addEffect'')"
    then show "constructor h (args eid options etype target) w = (Inl UnsupportedTargetKind, w)"
      by (simp add: 5 constructor_invalid)
  next
    show "distinct [MissingId, MissingOptions, MissingType, MissingTarget, UnsupportedTargetKind]"
      by (rule error_kinds_distinct)
  next
    fix this w'
    assume "constructor h (args eid options etype target) w = (Inr this, w')"
    then have v: "validate eid options etype target = Inr ()" by (rule constructor_valid)
    show "truthy eid" "truthy options" "own_keys options \<noteq> []" "truthy etype" "truthy target"
      "truthy (read_prop target ''addEffect'')"
      using 6 [OF v] by simp_all
  qed
qed

theorem construction_validates_in_order_witness:
  "constructor (demo_host demo_behavior) (args Undefined (Obj [(''duration'', Num (Fin 1000))]) (Str ''haste'') demo_target) demo_world
     = (Inl MissingId, demo_world)
   \<and> constructor (demo_host demo_behavior) (args (Str ''haste1'') (Obj []) (Str ''haste'') demo_target) demo_world
     = (Inl MissingOptions, demo_world)
   \<and> constructor (demo_host demo_behavior) (args (Str ''haste1'') (Obj [(''duration'', Num (Fin 1000))]) Undefined demo_target) demo_world
     = (Inl MissingType, demo_world)
   \<and> constructor (demo_host demo_behavior) (args (Str ''haste1'') (Obj [(''duration'', Num (Fin 1000))]) (Str ''haste'') Null) demo_world
     = (Inl MissingTarget, demo_world)
   \<and> constructor (demo_host demo_behavior) (args (Str ''haste1'') (Obj [(''duration'', Num (Fin 1000))]) (Str ''haste'') (Obj [])) demo_world
     = (Inl UnsupportedTargetKind, demo_world)
   \<and> fst (constructor (demo_host demo_behavior) (demo_args (Obj [(''duration'', Num (Fin 1000))])) demo_world)
     = Inr (demo_effect demo_behavior (Obj [(''duration'', Num (Fin 1000))]))
   \<and> truthy (read_prop demo_target ''addEffect'')"
proof -
  note t = construction_validates_in_order
  let ?o = "Obj [(''duration'', Num (Fin 1000))]"
  let ?h = "demo_host demo_behavior"
  have a: "constructor ?h (args Undefined ?o (Str ''haste'') demo_target) demo_world = (Inl MissingId, demo_world)"
    using t [where eid = Undefined] by simp
  have b: "constructor ?h (args (Str ''haste1'') (Obj []) (Str ''haste'') demo_target) demo_world = (Inl MissingOptions, demo_world)"
    using t [where eid = "Str ''haste1''" and options = "Obj []"] by (simp add: truthy_def)
  have c: "constructor ?h (args (Str ''haste1'') ?o Undefined demo_target) demo_world = (Inl MissingType, demo_world)"
    using t [where eid = "Str ''haste1''" and options = ?o and etype = Undefined] by (simp add: truthy_def)
  have d: "constructor ?h (args (Str ''haste1'') ?o (Str ''haste'') Null) demo_world = (Inl MissingTarget, demo_world)"
    using t [where eid = "Str ''haste1''" and options = ?o and etype = "Str ''haste''" and target = Null]
    by (simp add: truthy_def)
  have e: "constructor ?h (args (Str ''haste1'') ?o (Str ''haste'') (Obj [])) demo_world = (Inl UnsupportedTargetKind, demo_world)"
    using t [where eid = "Str ''haste1''" and options = ?o and etype = "Str ''haste''" and target = "Obj []"]
    by (simp add: truthy_def)
  have s: "constructor ?h (demo_args ?o) demo_world =
      (Inr (demo_effect demo_behavior ?o),
       \<lparr>calls = [RegistryGet demo_target (Str ''haste'') ?o, Invoke 10 [?o, demo_target]],
        listeners = [], attr_modifiers = []\<rparr>)"
    by (rule demo_construction) (simp_all add: truthy_def)
  have f: "truthy (read_prop demo_target ''addEffect'')"
    using t [where eid = "Str ''haste1''" and options = ?o and etype = "Str ''haste''"
        and target = demo_target and h = ?h and w = demo_world] s
    unfolding demo_args_def by blast
  show ?thesis using a b c d e s f by simp
qed

lemma call_fn_ok:
  "call_fn h f xs w = (Inr r, w') \<Longrightarrow>
     \<exists>k. f = Fn k \<and> run h k xs = Inr r \<and> w' = w\<lparr>calls := calls w @ [Invoke k xs]\<rparr>"
  by (cases f) (auto simp: call_fn_def)

lemma call_method_ok:
  "call_method h obj m xs w = (Inr r, w') \<Longrightarrow>
     \<exists>k. nullish obj = False \<and> read_prop obj m = Fn k \<and> run h k xs = Inr r
        \<and> w' = w\<lparr>calls := calls w @ [Invoke k xs]\<rparr>"
  by (auto simp: call_method_def get_prop_def split: if_splits dest: call_fn_ok)

lemma constructor_ok:
  assumes "constructor h (args eid options etype target) w = (Inr this, w')"
  shows "\<exists>f. this = \<lparr>this_id = eid, this_options = options, this_type = etype,
                     this_target = target, this_elapsed = Undefined,
                     this_started = Undefined,
                     this_effect = this_effect this\<rparr>
           \<and> validate eid options etype target = Inr ()
           \<and> Effects_get h target etype options = Inr (this_effect this)
           \<and> nullish (this_effect this) = False
           \<and> read_prop (this_effect this) ''activate'' = Fn f
           \<and> calls w' = calls w @ [RegistryGet target etype options, Invoke f [options, target]]
                @ (case read_prop options ''activate'' of Fn g \<Rightarrow> [Invoke g [target]] | _ \<Rightarrow> [])
           \<and> listeners w' = listeners w \<and> attr_modifiers w' = attr_modifiers w"
proof -
  have v: "validate eid options etype target = Inr ()"
    using assms by (rule constructor_valid)
  let ?w1 = "w\<lparr>calls := calls w @ [RegistryGet target etype options]\<rparr>"
  obtain eff where g: "Effects_get h target etype options = Inr eff"
    using assms v by (cases "Effects_get h target etype options") (simp_all add: constructor_def)
  let ?new = "\<lparr>this_id = eid, this_options = options, this_type = etype,
                     this_target = target, this_elapsed = Undefined,
                     this_started = Undefined, this_effect = eff\<rparr>"
  obtain r w2 where a: "call_method h eff ''activate'' [options, target] ?w1 = (Inr r, w2)"
    using assms v g
    by (cases "call_method h eff ''activate'' [options, target] ?w1")
       (auto simp: constructor_def Let_def split: sum.splits)
  from call_method_ok [OF a] obtain f where f: "nullish eff = False" "read_prop eff ''activate'' = Fn f"
      "w2 = ?w1\<lparr>calls := calls ?w1 @ [Invoke f [options, target]]\<rparr>"
    by blast
  show ?thesis
  proof (cases "truthy (read_prop options ''activate'')")
    case False
    then have res: "this = ?new" "w' = w2"
      using assms v g a by (simp_all add: constructor_def Let_def)
    have "(case read_prop options ''activate'' of Fn g \<Rightarrow> [Invoke g [target]] | _ \<Rightarrow> []) = []"
      using False by (cases "read_prop options ''activate''") (simp_all add: truthy_def)
    then show ?thesis using res f v g by simp
  next
    case True
    then obtain r' w3 where b: "call_method h options ''activate'' [target] w2 = (Inr r', w3)"
      using assms v g a
      by (cases "call_method h options ''activate'' [target] w2")
         (auto simp: constructor_def Let_def split: sum.splits)
    from call_method_ok [OF b] obtain k where k: "read_prop options ''activate'' = Fn k"
      "w3 = w2\<lparr>calls := calls w2 @ [Invoke k [target]]\<rparr>"
      by blast
    have res: "this = ?new" "w' = w3"
      using assms v g a b True by (simp_all add: constructor_def Let_def)
    show ?thesis using res f k v g by simp
  qed
qed

lemma target_on_calls: "calls (snd (target_on t e l w)) = calls w"
  by (simp add: target_on_def split: sum.splits jsval.splits)

lemma target_setModifier_calls: "calls (snd (target_setModifier t a m w)) = calls w"
  by (simp add: target_setModifier_def split: sum.splits jsval.splits)

lemma register_events_calls: "calls (snd (register_events t evs ks w)) = calls w"
proof (induction ks arbitrary: w)
  case Nil
  show ?case by simp
next
  case (Cons k ks)
  show ?case
  proof (cases "target_on t k (Handler (read_prop evs k)) w")
    case (Pair r w1)
    have "calls w1 = calls w" using target_on_calls [of t k "Handler (read_prop evs k)" w] Pair by simp
    then show ?thesis using Pair Cons.IH [of w1]
      by (cases r) (simp_all add: Let_def)
  qed
qed

lemma install_modifiers_calls: "calls (snd (install_modifiers t ms ks w)) = calls w"
proof (induction ks arbitrary: w)
  case Nil
  show ?case by simp
next
  case (Cons k ks)
  show ?case
  proof (cases "target_setModifier t k (read_prop ms k) w")
    case (Pair r w1)
    have "calls w1 = calls w" using target_setModifier_calls [of t k "read_prop ms k" w] Pair by simp
    then show ?thesis using Pair Cons.IH [of w1]
      by (cases r) (simp_all add: Let_def)
  qed
qed

lemma init_calls: "calls (snd (snd (init now this w))) = calls w"
proof (cases "nullish (this_options this)")
  case True
  then show ?thesis by (simp add: init_def)
next
  case False
  let ?t = "this_target this"
  let ?e = "this_effect (init_timing now this)"
  obtain r1 w1 where 1: "target_on ?t ''quit'' QuitHook w = (r1, w1)" by force
  have c1: "calls w1 = calls w" using target_on_calls [of ?t "''quit''" QuitHook w] 1 by simp
  show ?thesis
  proof (cases r1)
    case (Inl e)
    then show ?thesis using False 1 c1 by (simp add: init_def Let_def)
  next
    case (Inr u)
    show ?thesis
    proof (cases "get_prop ?e ''events''")
      case (Inl e)
      then show ?thesis using False 1 c1 Inr by (simp add: init_def Let_def)
    next
      case ev: (Inr ev)
      let ?evs = "js_or ev (Obj [])"
      obtain r2 w2 where 2: "register_events ?t ?evs (own_keys ?evs) w1 = (r2, w2)" by force
      have c2: "calls w2 = calls w1"
        using register_events_calls [of ?t ?evs "own_keys ?evs" w1] 2 by simp
      let ?ms = "read_prop ?e ''modifiers''"
      obtain r3 w3 where 3: "install_modifiers ?t ?ms (own_keys ?ms) w2 = (r3, w3)" by force
      have c3: "calls w3 = calls w2"
        using install_modifiers_calls [of ?t ?ms "own_keys ?ms" w2] 3 by simp
      show ?thesis using False 1 Inr ev 2 3 c1 c2 c3
        by (cases r2) (simp_all add: init_def Let_def)
    qed
  qed
qed

lemma Obj_present [simp]: "nullish (Obj ps) = False" "truthy (Obj ps)"
  by (simp_all add: nullish_def truthy_def)

lemma demo_construction_callback:
  assumes "own_keys options \<noteq> []" "read_prop options ''activate'' = Fn g" "nullish options = False"
    and "truthy options"
    and "nullish b = False" "read_prop b ''activate'' = Fn f"
  shows "constructor (demo_host b) (demo_args options) demo_world =
           (Inr (demo_effect b options),
            \<lparr>calls = [RegistryGet demo_target (Str ''haste'') options, Invoke f [options, demo_target],
                      Invoke g [demo_target]],
             listeners = [], attr_modifiers = []\<rparr>)"
proof -
  have v: "validate (Str ''haste1'') options (Str ''haste'') demo_target = Inr ()"
    using assms(1,4) by (simp add: validate_def truthy_def)
  show ?thesis
    unfolding demo_args_def constructor_def
    using v assms(2,3,5,6)
    by (simp add: Let_def call_method_def call_fn_def get_prop_def demo_effect_def demo_world_def truthy_def)
qed

section \<open>Activation at construction\<close>

text \<open>
  C8. When the constructor returns an instance, the world has gained exactly these calls, in
  this order: one registry lookup \<open>Effects.get(target, type, options)\<close>, whose result is
  the stored descriptor; one call of the descriptor's \<open>activate\<close> on \<open>options\<close> and
  \<open>target\<close>; and, exactly when \<open>options.activate\<close> is supplied, one call of it on
  \<open>target\<close>. Every call in the record has returned. \<open>init\<close> adds no call to the
  record: it calls neither the registry nor any callback.
\<close>

theorem construction_activates_once:
  "(\<forall>this w'. constructor h (args eid options etype target) w = (Inr this, w') \<longrightarrow>
      (\<exists>f. Effects_get h target etype options = Inr (this_effect this)
         \<and> read_prop (this_effect this) ''activate'' = Fn f
         \<and> (falsy (read_prop options ''activate'') \<longrightarrow>
               calls w' = calls w @ [RegistryGet target etype options, Invoke f [options, target]])
         \<and> (truthy (read_prop options ''activate'') \<longrightarrow>
               (\<exists>g. read_prop options ''activate'' = Fn g
                  \<and> calls w' = calls w @ [RegistryGet target etype options, Invoke f [options, target],
                                           Invoke g [target]]))))
   \<and> calls (snd (snd (init now this0 w0))) = calls w0"
proof (intro conjI allI impI)
  fix this w'
  assume a: "constructor h (args eid options etype target) w = (Inr this, w')"
  from constructor_ok [OF a] obtain f where
    g: "Effects_get h target etype options = Inr (this_effect this)" and
    f: "read_prop (this_effect this) ''activate'' = Fn f" and
    c: "calls w' = calls w @ [RegistryGet target etype options, Invoke f [options, target]]
          @ (case read_prop options ''activate'' of Fn g \<Rightarrow> [Invoke g [target]] | _ \<Rightarrow> [])"
    by blast
  have v: "validate eid options etype target = Inr ()" using a by (rule constructor_valid)
  have t: "truthy (read_prop options ''activate'') \<Longrightarrow> \<exists>g. read_prop options ''activate'' = Fn g"
  proof -
    assume tr: "truthy (read_prop options ''activate'')"
    obtain eff where e: "Effects_get h target etype options = Inr eff" using g by blast
    let ?w1 = "w\<lparr>calls := calls w @ [RegistryGet target etype options]\<rparr>"
    obtain r w2 where m: "call_method h eff ''activate'' [options, target] ?w1 = (Inr r, w2)"
      using a v e
      by (cases "call_method h eff ''activate'' [options, target] ?w1")
         (auto simp: constructor_def Let_def split: sum.splits)
    obtain r' w3 where "call_method h options ''activate'' [target] w2 = (Inr r', w3)"
      using a v e m tr
      by (cases "call_method h options ''activate'' [target] w2")
         (auto simp: constructor_def Let_def split: sum.splits)
    then show ?thesis using call_method_ok by blast
  qed
  have c0: "falsy (read_prop options ''activate'') \<Longrightarrow>
      (case read_prop options ''activate'' of Fn g \<Rightarrow> [Invoke g [target]] | _ \<Rightarrow> []) = []"
    by (cases "read_prop options ''activate''") simp_all
  show "\<exists>f. Effects_get h target etype options = Inr (this_effect this)
         \<and> read_prop (this_effect this) ''activate'' = Fn f
         \<and> (falsy (read_prop options ''activate'') \<longrightarrow>
               calls w' = calls w @ [RegistryGet target etype options, Invoke f [options, target]])
         \<and> (truthy (read_prop options ''activate'') \<longrightarrow>
               (\<exists>g. read_prop options ''activate'' = Fn g
                  \<and> calls w' = calls w @ [RegistryGet target etype options, Invoke f [options, target],
                                           Invoke g [target]]))"
    using g f c t c0 by auto
next
  show "calls (snd (snd (init now this0 w0))) = calls w0" by (rule init_calls)
qed

theorem construction_activates_once_witness:
  "calls (snd (constructor (demo_host demo_behavior) (demo_args (Obj [(''duration'', Num (Fin 1000))])) demo_world))
     = [RegistryGet demo_target (Str ''haste'') (Obj [(''duration'', Num (Fin 1000))]),
        Invoke 10 [Obj [(''duration'', Num (Fin 1000))], demo_target]]
   \<and> calls (snd (constructor (demo_host demo_behavior) (demo_args (Obj [(''activate'', Fn 20)])) demo_world))
     = [RegistryGet demo_target (Str ''haste'') (Obj [(''activate'', Fn 20)]),
        Invoke 10 [Obj [(''activate'', Fn 20)], demo_target],
        Invoke 20 [demo_target]]"
proof -
  let ?h = "demo_host demo_behavior"
  let ?o1 = "Obj [(''duration'', Num (Fin 1000))]"
  let ?o2 = "Obj [(''activate'', Fn 20)]"
  have "\<exists>w1. constructor ?h (demo_args ?o1) demo_world = (Inr (demo_effect demo_behavior ?o1), w1)"
    by (rule exI, rule demo_construction) (simp_all add: truthy_def)
  then obtain w1 where s1: "constructor ?h (demo_args ?o1) demo_world = (Inr (demo_effect demo_behavior ?o1), w1)"
    by blast
  have "\<exists>w2. constructor ?h (demo_args ?o2) demo_world = (Inr (demo_effect demo_behavior ?o2), w2)"
    by (rule exI, rule demo_construction_callback) simp_all
  then obtain w2 where s2: "constructor ?h (demo_args ?o2) demo_world = (Inr (demo_effect demo_behavior ?o2), w2)"
    by blast
  from construction_activates_once [where h = ?h and eid = "Str ''haste1''" and options = ?o1
        and etype = "Str ''haste''" and target = demo_target and w = demo_world]
    s1 [unfolded demo_args_def]
  obtain f where f: "read_prop (this_effect (demo_effect demo_behavior ?o1)) ''activate'' = Fn f"
    and cf: "falsy (read_prop ?o1 ''activate'') \<longrightarrow>
      calls w1 = calls demo_world @ [RegistryGet demo_target (Str ''haste'') ?o1, Invoke f [?o1, demo_target]]"
    by blast
  have "f = 10" using f by (simp add: demo_effect_def)
  then have c1: "calls w1 = [RegistryGet demo_target (Str ''haste'') ?o1, Invoke 10 [?o1, demo_target]]"
    using cf by (simp add: demo_world_def)
  from construction_activates_once [where h = ?h and eid = "Str ''haste1''" and options = ?o2
        and etype = "Str ''haste''" and target = demo_target and w = demo_world]
    s2 [unfolded demo_args_def]
  obtain f' where f': "read_prop (this_effect (demo_effect demo_behavior ?o2)) ''activate'' = Fn f'"
    and cg: "truthy (read_prop ?o2 ''activate'') \<longrightarrow>
      (\<exists>g. read_prop ?o2 ''activate'' = Fn g \<and>
         calls w2 = calls demo_world @ [RegistryGet demo_target (Str ''haste'') ?o2,
           Invoke f' [?o2, demo_target], Invoke g [demo_target]])"
    by blast
  have "f' = 10" using f' by (simp add: demo_effect_def)
  then have c2: "calls w2 = [RegistryGet demo_target (Str ''haste'') ?o2, Invoke 10 [?o2, demo_target],
      Invoke 20 [demo_target]]"
    using cg by (simp add: demo_world_def truthy_def)
  show ?thesis using s1 s2 c1 c2 by simp
qed

lemma read_prop_nullish: "nullish v \<Longrightarrow> read_prop v k = Undefined"
  by (cases v) (simp_all add: nullish_def)

lemma init_this: "fst (snd (init now this w)) = init_timing now this"
proof (cases "nullish (this_options this)")
  case True
  then show ?thesis
    by (simp add: init_def init_timing_def read_prop_nullish truthy_def)
next
  case False
  then show ?thesis
    by (simp add: init_def Let_def split: prod.splits sum.splits)
qed

lemma constructor_args:
  "nullish arg = False \<Longrightarrow>
     constructor h arg w =
       constructor h (args (read_prop arg ''id'') (read_prop arg ''options'')
                          (read_prop arg ''type'') (read_prop arg ''target'')) w"
  by (simp add: constructor_def)

lemma constructor_fresh:
  assumes "constructor h arg w = (Inr this, w')"
  shows "this_started this = Undefined \<and> this_elapsed this = Undefined
         \<and> truthy (this_options this) \<and> nullish (this_effect this) = False"
proof -
  have n: "nullish arg = False" using assms by (auto simp: constructor_def split: if_splits)
  let ?i = "read_prop arg ''id''" and ?o = "read_prop arg ''options''"
  let ?t = "read_prop arg ''type''" and ?g = "read_prop arg ''target''"
  have a: "constructor h (args ?i ?o ?t ?g) w = (Inr this, w')"
    using assms constructor_args [OF n] by simp
  from constructor_ok [OF a] obtain f :: nat where
    t: "this = \<lparr>this_id = ?i, this_options = ?o, this_type = ?t, this_target = ?g,
                this_elapsed = Undefined, this_started = Undefined,
                this_effect = this_effect this\<rparr>"
    and v: "validate ?i ?o ?t ?g = Inr ()" and e: "nullish (this_effect this) = False"
    by blast
  have "truthy ?o" using v by (simp add: validate_def truthy_def split: if_splits)
  moreover have "this_options this = ?o" using t
    by (metis effect.select_convs(2))
  moreover have "this_started this = Undefined" using t by (metis effect.select_convs(6))
  moreover have "this_elapsed this = Undefined" using t by (metis effect.select_convs(5))
  ultimately show ?thesis using e by simp
qed

section \<open>The timing anchor\<close>

text \<open>
  C4, as the code has it. When \<open>options.duration\<close> is truthy, \<open>init\<close> sets \<open>started\<close>
  to \<open>options.started\<close> if that value is truthy and to the current time otherwise, and
  \<open>elapsed\<close> to \<open>options.elapsed\<close> if that value is truthy and to \<open>0\<close> otherwise. When
  \<open>options.duration\<close> is absent or falsy, \<open>init\<close> leaves both fields as they were, so
  that an effect fresh from its constructor has no timing anchor. The fields are set even
  when \<open>init\<close> fails later on.
\<close>

theorem init_timing_anchor:
  "(truthy (read_prop (this_options this) ''duration'') \<longrightarrow>
      this_started (fst (snd (init now this w))) =
        (if truthy (read_prop (this_options this) ''started'')
         then read_prop (this_options this) ''started'' else Num (Fin now))
      \<and> this_elapsed (fst (snd (init now this w))) =
        (if truthy (read_prop (this_options this) ''elapsed'')
         then read_prop (this_options this) ''elapsed'' else Num (Fin 0)))
   \<and> (falsy (read_prop (this_options this) ''duration'') \<longrightarrow>
      this_started (fst (snd (init now this w))) = this_started this
      \<and> this_elapsed (fst (snd (init now this w))) = this_elapsed this)
   \<and> (\<forall>h arg w0 w1.
        constructor h arg w0 = (Inr this, w1) \<and> falsy (read_prop (this_options this) ''duration'') \<longrightarrow>
        this_started (fst (snd (init now this w))) = Undefined)"
proof (intro conjI impI allI)
  assume "truthy (read_prop (this_options this) ''duration'')"
  then show "this_started (fst (snd (init now this w))) =
        (if truthy (read_prop (this_options this) ''started'')
         then read_prop (this_options this) ''started'' else Num (Fin now))"
    and "this_elapsed (fst (snd (init now this w))) =
        (if truthy (read_prop (this_options this) ''elapsed'')
         then read_prop (this_options this) ''elapsed'' else Num (Fin 0))"
    by (simp_all add: init_this init_timing_def js_or_def Let_def)
next
  assume "falsy (read_prop (this_options this) ''duration'')"
  then show "this_started (fst (snd (init now this w))) = this_started this"
    and "this_elapsed (fst (snd (init now this w))) = this_elapsed this"
    by (simp_all add: init_this init_timing_def truthy_def Let_def)
next
  fix h arg w0 w1
  assume a: "constructor h arg w0 = (Inr this, w1) \<and> falsy (read_prop (this_options this) ''duration'')"
  then have "this_started this = Undefined" using constructor_fresh by blast
  then show "this_started (fst (snd (init now this w))) = Undefined"
    using a by (simp add: init_this init_timing_def truthy_def Let_def)
qed

theorem init_timing_anchor_witness:
  "this_started (fst (snd (init 5000
      (demo_effect demo_behavior (Obj [(''duration'', Num (Fin 1000)), (''started'', Num (Fin 3000)), (''elapsed'', Num (Fin 2000))]))
      demo_world))) = Num (Fin 3000)
   \<and> this_elapsed (fst (snd (init 5000
      (demo_effect demo_behavior (Obj [(''duration'', Num (Fin 1000)), (''started'', Num (Fin 3000)), (''elapsed'', Num (Fin 2000))]))
      demo_world))) = Num (Fin 2000)
   \<and> this_started (fst (snd (init 5000 (demo_effect demo_behavior (Obj [(''duration'', Num (Fin 1000))])) demo_world)))
       = Num (Fin 5000)
   \<and> this_elapsed (fst (snd (init 5000 (demo_effect demo_behavior (Obj [(''duration'', Num (Fin 1000))])) demo_world)))
       = Num (Fin 0)
   \<and> this_started (fst (snd (init 5000 (demo_effect demo_behavior (Obj [(''strength'', Num (Fin 3))])) demo_world)))
       = Undefined"
proof -
  let ?o1 = "Obj [(''duration'', Num (Fin 1000)), (''started'', Num (Fin 3000)), (''elapsed'', Num (Fin 2000))]"
  let ?o2 = "Obj [(''duration'', Num (Fin 1000))]"
  let ?o3 = "Obj [(''strength'', Num (Fin 3))]"
  have o: "this_options (demo_effect demo_behavior ?o1) = ?o1"
    "this_options (demo_effect demo_behavior ?o2) = ?o2"
    "this_options (demo_effect demo_behavior ?o3) = ?o3"
    by (simp_all add: demo_effect_def)
  have 1: "this_started (fst (snd (init 5000 (demo_effect demo_behavior ?o1) demo_world))) = Num (Fin 3000)"
    "this_elapsed (fst (snd (init 5000 (demo_effect demo_behavior ?o1) demo_world))) = Num (Fin 2000)"
    using init_timing_anchor [of "demo_effect demo_behavior ?o1" 5000 demo_world]
    by (simp_all add: o truthy_def)
  have 2: "this_started (fst (snd (init 5000 (demo_effect demo_behavior ?o2) demo_world))) = Num (Fin 5000)"
    "this_elapsed (fst (snd (init 5000 (demo_effect demo_behavior ?o2) demo_world))) = Num (Fin 0)"
    using init_timing_anchor [of "demo_effect demo_behavior ?o2" 5000 demo_world]
    by (simp_all add: o truthy_def)
  have c: "constructor (demo_host demo_behavior) (demo_args ?o3) demo_world =
      (Inr (demo_effect demo_behavior ?o3),
       \<lparr>calls = [RegistryGet demo_target (Str ''haste'') ?o3, Invoke 10 [?o3, demo_target]],
        listeners = [], attr_modifiers = []\<rparr>)"
    by (rule demo_construction) simp_all
  have f3: "falsy (read_prop (this_options (demo_effect demo_behavior ?o3)) ''duration'')"
    by (simp add: o)
  have 3: "this_started (fst (snd (init 5000 (demo_effect demo_behavior ?o3) demo_world))) = Undefined"
    using init_timing_anchor [of "demo_effect demo_behavior ?o3" 5000 demo_world] c f3
    by blast
  show ?thesis using 1 2 3 by simp
qed

text \<open>
  The claim reads \<open>started = options.started\<close> whenever the key is supplied. With
  \<open>{ duration: 1000, started: 0 }\<close> the key is supplied, and \<open>init\<close> at time \<open>5000\<close>
  stores \<open>5000\<close>.
\<close>

theorem init_started_counterexample:
  "fst (constructor (demo_host demo_behavior)
         (demo_args (Obj [(''duration'', Num (Fin 1000)), (''started'', Num (Fin 0))])) demo_world)
      = Inr (demo_effect demo_behavior (Obj [(''duration'', Num (Fin 1000)), (''started'', Num (Fin 0))]))
   \<and> read_prop (Obj [(''duration'', Num (Fin 1000)), (''started'', Num (Fin 0))]) ''started'' = Num (Fin 0)
   \<and> this_started (fst (snd (init 5000
        (demo_effect demo_behavior (Obj [(''duration'', Num (Fin 1000)), (''started'', Num (Fin 0))]))
        demo_world))) = Num (Fin 5000)"
proof -
  let ?o = "Obj [(''duration'', Num (Fin 1000)), (''started'', Num (Fin 0))]"
  have c: "constructor (demo_host demo_behavior) (demo_args ?o) demo_world =
      (Inr (demo_effect demo_behavior ?o),
       \<lparr>calls = [RegistryGet demo_target (Str ''haste'') ?o, Invoke 10 [?o, demo_target]],
        listeners = [], attr_modifiers = []\<rparr>)"
    by (rule demo_construction) simp_all
  have s: "this_started (fst (snd (init 5000 (demo_effect demo_behavior ?o) demo_world))) = Num (Fin 5000)"
    by (simp add: init_this init_timing_def js_or_def truthy_def demo_effect_def Let_def)
  show ?thesis using c s by simp
qed

lemma parseInt_str_cases: "parseInt_str s = NaN \<or> (\<exists>n. parseInt_str s = Fin n)"
  by (simp add: parseInt_str_def Let_def)

lemma parseInt_not_inf: "parseInt v \<noteq> PInf"
  using parseInt_str_cases [of "ToString v"] by (auto simp: parseInt_def)

lemma getDuration_cases:
  "getDuration this =
     (if parseInt (read_prop (this_options this) ''duration'') = NaN
         \<or> parseInt (read_prop (this_options this) ''duration'') = Fin 0
      then PInf else parseInt (read_prop (this_options this) ''duration''))"
proof -
  let ?p = "parseInt (read_prop (this_options this) ''duration'')"
  have "?p = NaN \<or> (\<exists>n. ?p = Fin n)"
    using parseInt_str_cases by (simp add: parseInt_def)
  then show ?thesis
    by (auto simp: getDuration_def Let_def truthy_def)
qed

lemma parseInt_non_numbers:
  "parseInt Undefined = NaN" "parseInt Null = NaN" "parseInt (Bool b) = NaN"
  "parseInt (Obj ps) = NaN" "parseInt (Fn k) = NaN"
  "parseInt (Num NaN) = NaN" "parseInt (Num PInf) = NaN" "parseInt (Num NInf) = NaN"
  by (simp_all add: parseInt_def parseInt_str_def is_ws_def is_digit_def)

section \<open>The duration\<close>

text \<open>
  C6, as the code has it. \<open>getDuration\<close> returns \<open>parseInt(options.duration, 10)\<close> when
  that is a whole number other than \<open>0\<close>, and the infinite duration exactly when the parse
  gives \<open>NaN\<close> or \<open>0\<close>. A whole-number duration other than \<open>0\<close> and of magnitude below
  \<open>10^21\<close> is returned as itself; an absent duration, and one that is \<open>null\<close>, a boolean,
  an object, a callback, \<open>NaN\<close> or an infinity, gives the infinite duration.
\<close>

theorem getDuration_parses_duration:
  "((getDuration this = PInf) =
      (parseInt (read_prop (this_options this) ''duration'') = NaN
       \<or> parseInt (read_prop (this_options this) ''duration'') = Fin 0))
   \<and> (getDuration this \<noteq> PInf \<longrightarrow>
        getDuration this = parseInt (read_prop (this_options this) ''duration''))
   \<and> (\<forall>n. read_prop (this_options this) ''duration'' = Num (Fin n) \<and> n \<noteq> 0 \<and> \<bar>n\<bar> < 10 ^ 21 \<longrightarrow>
        getDuration this = Fin n)
   \<and> (read_prop (this_options this) ''duration'' = Undefined
        \<or> read_prop (this_options this) ''duration'' = Null
        \<or> (\<exists>b. read_prop (this_options this) ''duration'' = Bool b)
        \<or> (\<exists>ps. read_prop (this_options this) ''duration'' = Obj ps)
        \<or> (\<exists>k. read_prop (this_options this) ''duration'' = Fn k)
        \<or> read_prop (this_options this) ''duration'' = Num NaN
        \<or> read_prop (this_options this) ''duration'' = Num PInf
        \<or> read_prop (this_options this) ''duration'' = Num NInf \<longrightarrow>
        getDuration this = PInf)"
proof (intro conjI impI allI)
  let ?d = "read_prop (this_options this) ''duration''"
  show "(getDuration this = PInf) = (parseInt ?d = NaN \<or> parseInt ?d = Fin 0)"
    using parseInt_not_inf [of ?d] by (simp add: getDuration_cases)
  show "getDuration this = parseInt ?d" if "getDuration this \<noteq> PInf"
    using that by (simp add: getDuration_cases split: if_splits)
  show "getDuration this = Fin n" if "?d = Num (Fin n) \<and> n \<noteq> 0 \<and> \<bar>n\<bar> < 10 ^ 21" for n
    using that by (simp add: getDuration_cases parseInt_small)
  show "getDuration this = PInf"
    if "?d = Undefined \<or> ?d = Null \<or> (\<exists>b. ?d = Bool b) \<or> (\<exists>ps. ?d = Obj ps) \<or> (\<exists>k. ?d = Fn k)
        \<or> ?d = Num NaN \<or> ?d = Num PInf \<or> ?d = Num NInf"
    using that by (auto simp: getDuration_cases parseInt_non_numbers)
qed

theorem getDuration_parses_duration_witness:
  "getDuration (demo_effect demo_behavior (Obj [(''duration'', Num (Fin 1000))])) = Fin 1000
   \<and> getDuration (demo_effect demo_behavior (Obj [(''duration'', Str ''250ms'')])) = Fin 250
   \<and> getDuration (demo_effect demo_behavior (Obj [(''strength'', Num (Fin 3))])) = PInf"
proof -
  let ?o1 = "Obj [(''duration'', Num (Fin 1000))]"
  let ?o2 = "Obj [(''duration'', Str ''250ms'')]"
  let ?o3 = "Obj [(''strength'', Num (Fin 3))]"
  have o: "this_options (demo_effect demo_behavior ?o1) = ?o1"
    "this_options (demo_effect demo_behavior ?o2) = ?o2"
    "this_options (demo_effect demo_behavior ?o3) = ?o3"
    by (simp_all add: demo_effect_def)
  have 1: "getDuration (demo_effect demo_behavior ?o1) = Fin 1000"
    using getDuration_parses_duration [of "demo_effect demo_behavior ?o1"] by (simp add: o)
  have p: "parseInt (Str ''250ms'') = Fin 250"
    by (simp add: parseInt_def parseInt_str_def is_ws_def is_digit_def digits_val_def digit_val_def)
  have 2: "getDuration (demo_effect demo_behavior ?o2) = Fin 250"
    using getDuration_parses_duration [of "demo_effect demo_behavior ?o2"] by (simp add: o p)
  have 3: "getDuration (demo_effect demo_behavior ?o3) = PInf"
    using getDuration_parses_duration [of "demo_effect demo_behavior ?o3"] by (simp add: o)
  show ?thesis using 1 2 3 by simp
qed

text \<open>
  The claim has every numeric duration returned as its parsed value. The duration \<open>0\<close> is
  numeric and parses to \<open>0\<close>, and \<open>getDuration\<close> returns the infinite duration.
\<close>

theorem getDuration_zero_counterexample:
  "fst (constructor (demo_host demo_behavior) (demo_args (Obj [(''duration'', Num (Fin 0))])) demo_world)
      = Inr (demo_effect demo_behavior (Obj [(''duration'', Num (Fin 0))]))
   \<and> parseInt (Num (Fin 0)) = Fin 0
   \<and> getDuration (demo_effect demo_behavior (Obj [(''duration'', Num (Fin 0))])) = PInf"
proof -
  let ?o = "Obj [(''duration'', Num (Fin 0))]"
  have c: "constructor (demo_host demo_behavior) (demo_args ?o) demo_world =
      (Inr (demo_effect demo_behavior ?o),
       \<lparr>calls = [RegistryGet demo_target (Str ''haste'') ?o, Invoke 10 [?o, demo_target]],
        listeners = [], attr_modifiers = []\<rparr>)"
    by (rule demo_construction) simp_all
  have p: "parseInt (Num (Fin 0)) = Fin 0" by (simp add: parseInt_small)
  have "getDuration (demo_effect demo_behavior ?o) = PInf"
    by (simp add: getDuration_def p truthy_def demo_effect_def)
  then show ?thesis using c p by simp
qed

lemma getElapsed_unanchored: "this_started this = Undefined \<Longrightarrow> getElapsed now this = Null"
  by (simp add: getElapsed_def isNaN_def)

section \<open>Before the clock is anchored\<close>

text \<open>
  C10. An effect constructed with a positive whole-number \<open>options.duration\<close>, on which
  \<open>init\<close> has not been called, has no timing anchor: \<open>getElapsed\<close> returns \<open>null\<close>. It is
  temporary, and \<open>isCurrent\<close> is true all the same, since \<open>null\<close> compares as \<open>0\<close>, which
  is less than the duration.
\<close>

theorem unanchored_effect_is_current:
  assumes "constructor h arg w = (Inr this, w')"
    and "read_prop (this_options this) ''duration'' = Num (Fin n)"
    and "0 < n"
  shows "getElapsed now this = Null \<and> isTemporary this \<and> isCurrent now this"
proof -
  have s: "this_started this = Undefined" using constructor_fresh [OF assms(1)] by simp
  then have e: "getElapsed now this = Null" by (rule getElapsed_unanchored)
  obtain k where k: "0 < k" "parseInt (Num (Fin n)) = Fin k"
    using parseInt_positive [OF assms(3)] by blast
  have d: "getDuration this = Fin k"
    using k assms(2) by (simp add: getDuration_def truthy_def)
  have t: "isTemporary this" using d by (simp add: isTemporary_def)
  have "isCurrent now this" using t d e k(1) by (simp add: isCurrent_def)
  then show ?thesis using e t by simp
qed

theorem unanchored_effect_is_current_witness:
  "getElapsed 5000 (demo_effect demo_behavior (Obj [(''duration'', Num (Fin 1000))])) = Null
   \<and> isTemporary (demo_effect demo_behavior (Obj [(''duration'', Num (Fin 1000))]))
   \<and> isCurrent 5000 (demo_effect demo_behavior (Obj [(''duration'', Num (Fin 1000))]))"
proof -
  let ?o = "Obj [(''duration'', Num (Fin 1000))]"
  have c: "constructor (demo_host demo_behavior) (demo_args ?o) demo_world =
      (Inr (demo_effect demo_behavior ?o),
       \<lparr>calls = [RegistryGet demo_target (Str ''haste'') ?o, Invoke 10 [?o, demo_target]],
        listeners = [], attr_modifiers = []\<rparr>)"
    by (rule demo_construction) simp_all
  have d: "read_prop (this_options (demo_effect demo_behavior ?o)) ''duration'' = Num (Fin 1000)"
    by (simp add: demo_effect_def)
  have p: "(0::int) < 1000" by simp
  show ?thesis by (rule unanchored_effect_is_current [OF c d p])
qed

lemma digits_not_duration: "digits i \<noteq> ''duration''"
proof
  assume "digits i = ''duration''"
  then have "list_all is_digit ''duration''" using digits_all [of i] by simp
  then show False by (simp add: is_digit_def)
qed

lemma no_duration_key:
  "''duration'' \<notin> set (own_keys options) \<Longrightarrow> read_prop options ''duration'' = Undefined"
proof (cases options)
  case (Obj ps)
  assume "''duration'' \<notin> set (own_keys options)"
  then have "map_of ps ''duration'' = None" using Obj by (simp add: map_of_eq_None_iff)
  then show ?thesis using Obj by simp
next
  case (Str s)
  have "filter (\<lambda>i. digits i = ''duration'') [0..<length s] = []"
    by (simp add: digits_not_duration)
  then show ?thesis using Str by (simp add: str_index_def)
qed simp_all

lemma permanent_init: "permanent this \<Longrightarrow> permanent (fst (snd (init now this w)))"
  by (simp add: permanent_def init_this init_timing_def truthy_def)

lemma permanent_setElapsed: "permanent this \<Longrightarrow> permanent (setElapsed now this)"
  by (simp add: permanent_def setElapsed_def)

lemma quit_handler_this: "fst (snd (quit_handler h now this w)) = setElapsed now this"
  by (simp add: quit_handler_def Let_def split: prod.splits sum.splits)

lemma permanent_step: "permanent (fst s) \<Longrightarrow> permanent (fst (step h x s))"
proof (cases s)
  case (Pair this w)
  assume "permanent (fst s)"
  then have p: "permanent this" using Pair by simp
  show ?thesis
  proof (cases x)
    case (Init now)
    then show ?thesis using Pair permanent_init [OF p, of now w] by simp
  next
    case (SetElapsed now)
    then show ?thesis using Pair permanent_setElapsed [OF p] by simp
  next
    case (Quit now)
    then show ?thesis using Pair permanent_setElapsed [OF p, of now]
      by (simp add: quit_handler_this)
  next
    case Deactivate
    then show ?thesis using Pair p by simp
  qed
qed

lemma permanent_run_ops: "permanent (fst s) \<Longrightarrow> permanent (fst (run_ops h ops s))"
  unfolding run_ops_def
  by (induction ops arbitrary: s) (simp_all add: permanent_step)

lemma permanent_verdicts:
  assumes "permanent this"
  shows "isTemporary this = False \<and> isCurrent now this = True \<and> getElapsed now this = Null"
proof -
  have d: "getDuration this = PInf"
    using assms by (simp add: permanent_def getDuration_def parseInt_non_numbers truthy_def)
  have t: "isTemporary this = False" using d by (simp add: isTemporary_def)
  have "getElapsed now this = Null"
    using assms by (simp add: permanent_def getElapsed_unanchored)
  then show ?thesis using t by (simp add: isCurrent_def)
qed

section \<open>Permanent effects\<close>

text \<open>
  C5. An effect constructed from options that have no \<open>duration\<close> key is never
  temporary, is current at every time, and has \<open>null\<close> as its elapsed time, whatever
  calls of \<open>init\<close>, \<open>setElapsed\<close> and \<open>deactivate\<close> and whatever \<open>quit\<close> events came
  before and whenever they came: no timing anchor is ever established.
\<close>

theorem permanent_effect_always_current:
  assumes "constructor h arg w = (Inr this, w1)"
    and "''duration'' \<notin> set (own_keys (this_options this))"
    and "run_ops h ops (this, w1) = (this', w')"
  shows "isTemporary this' = False \<and> isCurrent now this' = True \<and> getElapsed now this' = Null"
proof -
  have "this_started this = Undefined" using constructor_fresh [OF assms(1)] by simp
  then have "permanent this" using no_duration_key [OF assms(2)] by (simp add: permanent_def)
  then have "permanent (fst (run_ops h ops (this, w1)))" using permanent_run_ops [of "(this, w1)"] by simp
  then have "permanent this'" using assms(3) by simp
  then show ?thesis by (rule permanent_verdicts)
qed

theorem permanent_effect_always_current_witness:
  "isTemporary (fst (run_ops (demo_host demo_behavior) [Init 1000, SetElapsed 2000, Quit 3000, Init 4000, Deactivate]
      (demo_effect demo_behavior (Obj [(''strength'', Num (Fin 3))]),
       \<lparr>calls = [RegistryGet demo_target (Str ''haste'') (Obj [(''strength'', Num (Fin 3))]),
                 Invoke 10 [Obj [(''strength'', Num (Fin 3))], demo_target]],
        listeners = [], attr_modifiers = []\<rparr>))) = False
   \<and> isCurrent 99999999 (fst (run_ops (demo_host demo_behavior) [Init 1000, SetElapsed 2000, Quit 3000, Init 4000, Deactivate]
      (demo_effect demo_behavior (Obj [(''strength'', Num (Fin 3))]),
       \<lparr>calls = [RegistryGet demo_target (Str ''haste'') (Obj [(''strength'', Num (Fin 3))]),
                 Invoke 10 [Obj [(''strength'', Num (Fin 3))], demo_target]],
        listeners = [], attr_modifiers = []\<rparr>))) = True
   \<and> getElapsed 99999999 (fst (run_ops (demo_host demo_behavior) [Init 1000, SetElapsed 2000, Quit 3000, Init 4000, Deactivate]
      (demo_effect demo_behavior (Obj [(''strength'', Num (Fin 3))]),
       \<lparr>calls = [RegistryGet demo_target (Str ''haste'') (Obj [(''strength'', Num (Fin 3))]),
                 Invoke 10 [Obj [(''strength'', Num (Fin 3))], demo_target]],
        listeners = [], attr_modifiers = []\<rparr>))) = Null"
proof -
  let ?o = "Obj [(''strength'', Num (Fin 3))]"
  let ?w1 = "\<lparr>calls = [RegistryGet demo_target (Str ''haste'') ?o, Invoke 10 [?o, demo_target]],
        listeners = [], attr_modifiers = []\<rparr>"
  let ?ops = "[Init 1000, SetElapsed 2000, Quit 3000, Init 4000, Deactivate]"
  have c: "constructor (demo_host demo_behavior) (demo_args ?o) demo_world =
      (Inr (demo_effect demo_behavior ?o), ?w1)"
    by (rule demo_construction) simp_all
  have k: "''duration'' \<notin> set (own_keys (this_options (demo_effect demo_behavior ?o)))"
    by (simp add: demo_effect_def)
  have r: "run_ops (demo_host demo_behavior) ?ops (demo_effect demo_behavior ?o, ?w1) =
      (fst (run_ops (demo_host demo_behavior) ?ops (demo_effect demo_behavior ?o, ?w1)),
       snd (run_ops (demo_host demo_behavior) ?ops (demo_effect demo_behavior ?o, ?w1)))"
    by simp
  show ?thesis by (rule permanent_effect_always_current [OF c k r])
qed

section \<open>Wiring of events and modifiers\<close>

lemma read_prop_Fn_present: "read_prop v k = Fn a \<Longrightarrow> nullish v = False"
  by (cases v) (simp_all add: nullish_def)

lemma target_on_ok:
  "read_prop t ''on'' = Fn a \<Longrightarrow>
     target_on t e l w = (Inr (), w\<lparr>listeners := listeners w @ [(e, l)]\<rparr>)"
  by (simp add: target_on_def get_prop_def read_prop_Fn_present)

lemma target_setModifier_ok:
  "read_prop t ''setModifier'' = Fn b \<Longrightarrow>
     target_setModifier t k m w = (Inr (), w\<lparr>attr_modifiers := attr_modifiers w @ [(k, m)]\<rparr>)"
  by (simp add: target_setModifier_def get_prop_def read_prop_Fn_present)





lemma init_timing_fields:
  "this_effect (init_timing now this) = this_effect this"
  "this_target (init_timing now this) = this_target this"
  by (simp_all add: init_timing_def Let_def)

text \<open>\<open>init\<close> on a constructed effect, once the quit hook is registered.\<close>

lemma init_wiring:
  assumes "nullish (this_options this) = False" "nullish (this_effect this) = False"
    and "read_prop (this_target this) ''on'' = Fn a"
  shows "init now this w =
     (case register_events (this_target this) (events_of this) (own_keys (events_of this))
             (w\<lparr>listeners := listeners w @ [(''quit'', QuitHook)]\<rparr>) of
        (Inl e, w2) \<Rightarrow> (Inl e, init_timing now this, w2)
      | (Inr u, w2) \<Rightarrow>
          (case install_modifiers (this_target this) (modifiers_of this)
                  (own_keys (modifiers_of this)) w2 of
             (r, w3) \<Rightarrow> (r, init_timing now this, w3)))"
  using assms
  by (simp add: init_def Let_def init_timing_fields target_on_ok [OF assms(3)] get_prop_def
      events_of_def modifiers_of_def split: prod.splits sum.splits)

lemma truthy_not_nullish: "truthy v \<Longrightarrow> nullish v = False"
  by (cases v) (simp_all add: truthy_def nullish_def)


lemma no_callback_behavior_props [simp]:
  "nullish no_callback_behavior = False"
  "read_prop no_callback_behavior ''activate'' = Fn 10"
  "read_prop no_callback_behavior ''events'' = Obj [(''hit'', Fn 12)]"
  "read_prop no_callback_behavior ''modifiers'' = Obj [(''speed'', Null)]"
  by (simp_all add: no_callback_behavior_def nullish_def)

lemma demo_effect_sel [simp]:
  "this_options (demo_effect b options) = options"
  "this_target (demo_effect b options) = demo_target"
  "this_effect (demo_effect b options) = b"
  "this_started (demo_effect b options) = Undefined"
  "this_elapsed (demo_effect b options) = Undefined"
  by (simp_all add: demo_effect_def)



section \<open>What deactivate does\<close>

lemma variable_empty: "variable [] x = Inl (not_defined x)"
  by (simp add: variable_def)

lemma call_fn_listeners: "listeners (snd (call_fn h f xs w)) = listeners w"
  by (cases f) (simp_all add: call_fn_def)

lemma call_method_listeners: "listeners (snd (call_method h v m xs w)) = listeners w"
  by (simp add: call_method_def call_fn_listeners split: sum.splits)

lemma deactivate_fails: "\<exists>e. fst (deactivate h this w) = Inl e"
  by (simp add: deactivate_def variable_empty Let_def split: prod.splits sum.splits)

lemma deactivate_listeners: "listeners (snd (deactivate h this w)) = listeners w"
proof -
  obtain r1 w1 where 1: "call_method h (this_effect this) ''deactivate'' [] w = (r1, w1)"
    by force
  have l1: "listeners w1 = listeners w"
    using call_method_listeners [of h "this_effect this" "''deactivate''" "[]" w] 1 by simp
  obtain r2 w2 where 2: "call_method h (this_options this) ''deactivate'' [] w1 = (r2, w2)"
    by force
  have l2: "listeners w2 = listeners w1"
    using call_method_listeners [of h "this_options this" "''deactivate''" "[]" w1] 2 by simp
  show ?thesis
    using 1 2 l1 l2
    by (auto simp: deactivate_def variable_empty Let_def split: prod.splits sum.splits if_splits)
qed

lemma deactivate_quiet_callbacks:
  assumes "read_prop (this_effect this) ''deactivate'' = Fn k" "run h k [] = Inr r"
    and "nullish (this_options this) = False" "falsy (read_prop (this_options this) ''deactivate'')"
  shows "deactivate h this w =
           (Inl (ReferenceError ''effect is not defined''), w\<lparr>calls := calls w @ [Invoke k []]\<rparr>)"
proof -
  have n: "nullish (this_effect this) = False" using assms(1) by (rule read_prop_Fn_present)
  have c: "call_method h (this_effect this) ''deactivate'' [] w =
      (Inr r, w\<lparr>calls := calls w @ [Invoke k []]\<rparr>)"
    using assms(1,2) n by (simp add: call_method_def get_prop_def call_fn_def)
  show ?thesis
    using c assms(3,4)
    by (simp add: deactivate_def variable_empty not_defined_def truthy_def)
qed

lemma demo_target_on:
  "target_on demo_target e l w = (Inr (), w\<lparr>listeners := listeners w @ [(e, l)]\<rparr>)"
  by (rule target_on_ok) simp

lemma demo_target_setModifier:
  "target_setModifier demo_target k m w = (Inr (), w\<lparr>attr_modifiers := attr_modifiers w @ [(k, m)]\<rparr>)"
  by (rule target_setModifier_ok) simp

text \<open>
  C1 asks that \<open>deactivate\<close> call the descriptor's \<open>deactivate\<close>, then
  \<open>options.deactivate\<close> if supplied, and then remove every listener that \<open>init\<close>
  registered. The code makes the first two calls and then throws: after \<open>init\<close> has
  registered the quit hook and the handler of \<open>hit\<close>, \<open>deactivate\<close> calls the
  descriptor's \<open>deactivate\<close> with no argument, raises \<open>ReferenceError\<close> on the
  undeclared identifier \<open>effect\<close> of line 119, and leaves both listeners on the target.
  No call of \<open>deactivate\<close>, on any effect, changes the listeners of the target.
\<close>

theorem deactivate_leaves_listeners:
  "fst (init 5000 (demo_effect demo_behavior (Obj [(''duration'', Num (Fin 1000))])) demo_world) = Inr ()
   \<and> listeners (snd (snd (init 5000 (demo_effect demo_behavior (Obj [(''duration'', Num (Fin 1000))])) demo_world)))
       = [(''quit'', QuitHook), (''hit'', Handler (Fn 12))]
   \<and> fst (deactivate (demo_host demo_behavior)
        (fst (snd (init 5000 (demo_effect demo_behavior (Obj [(''duration'', Num (Fin 1000))])) demo_world)))
        (snd (snd (init 5000 (demo_effect demo_behavior (Obj [(''duration'', Num (Fin 1000))])) demo_world))))
       = Inl (ReferenceError ''effect is not defined'')
   \<and> calls (snd (deactivate (demo_host demo_behavior)
        (fst (snd (init 5000 (demo_effect demo_behavior (Obj [(''duration'', Num (Fin 1000))])) demo_world)))
        (snd (snd (init 5000 (demo_effect demo_behavior (Obj [(''duration'', Num (Fin 1000))])) demo_world)))))
       = [Invoke 11 []]
   \<and> listeners (snd (deactivate (demo_host demo_behavior)
        (fst (snd (init 5000 (demo_effect demo_behavior (Obj [(''duration'', Num (Fin 1000))])) demo_world)))
        (snd (snd (init 5000 (demo_effect demo_behavior (Obj [(''duration'', Num (Fin 1000))])) demo_world)))))
       = [(''quit'', QuitHook), (''hit'', Handler (Fn 12))]
   \<and> listeners (snd (deactivate h this w)) = listeners w"
proof -
  let ?o = "Obj [(''duration'', Num (Fin 1000))]"
  let ?e = "demo_effect demo_behavior ?o"
  let ?w2 = "\<lparr>calls = [], listeners = [(''quit'', QuitHook), (''hit'', Handler (Fn 12))],
              attr_modifiers = [(''speed'', Fn 13)]\<rparr>"
  have on: "read_prop (this_target ?e) ''on'' = Fn 1" by simp
  have i: "init 5000 ?e demo_world = (Inr (), init_timing 5000 ?e, ?w2)"
    by (simp add: init_wiring [OF _ _ on] events_of_def modifiers_of_def js_or_def truthy_def
        Let_def demo_target_on demo_target_setModifier demo_world_def)
  have d: "deactivate (demo_host demo_behavior) (init_timing 5000 ?e) ?w2 =
      (Inl (ReferenceError ''effect is not defined''), ?w2\<lparr>calls := calls ?w2 @ [Invoke 11 []]\<rparr>)"
    by (rule deactivate_quiet_callbacks) (simp_all add: init_timing_fields init_timing_def Let_def)
  show ?thesis by (simp add: i d deactivate_listeners)
qed

text \<open>
  C2 asks that \<open>deactivate\<close> not throw on an effect on which \<open>init\<close> was never called.
  In the code no call of \<open>deactivate\<close> returns normally, whatever the effect, the
  callbacks and the world; on an effect fresh from its constructor, with callbacks that
  do not throw, the error is the \<open>ReferenceError\<close> of line 119.
\<close>

theorem deactivate_always_throws:
  "(\<exists>e. fst (deactivate h this w) = Inl e)
   \<and> deactivate (demo_host demo_behavior) (demo_effect demo_behavior (Obj [(''duration'', Num (Fin 1000))])) demo_world
      = (Inl (ReferenceError ''effect is not defined''),
         \<lparr>calls = [Invoke 11 []], listeners = [], attr_modifiers = []\<rparr>)"
proof -
  let ?e = "demo_effect demo_behavior (Obj [(''duration'', Num (Fin 1000))])"
  have "deactivate (demo_host demo_behavior) ?e demo_world =
      (Inl (ReferenceError ''effect is not defined''), demo_world\<lparr>calls := calls demo_world @ [Invoke 11 []]\<rparr>)"
    by (rule deactivate_quiet_callbacks) simp_all
  then show ?thesis using deactivate_fails [of h this w] by (simp add: demo_world_def)
qed

section \<open>Descriptive accessors\<close>

text \<open>
  C9 asks that \<open>getName\<close>, \<open>getDescription\<close> and \<open>getAura\<close> return the fields
  \<open>name\<close>, \<open>desc\<close> and \<open>aura\<close> of the stored descriptor. In the code the three
  accessors read \<open>this[_event]\<close>, and \<open>_event\<close> is declared nowhere: each call raises
  \<open>ReferenceError\<close>, also where the descriptor has the field, as \<open>name\<close> in the scenario.
  \<open>getModifiers\<close> is as the claim has it: its result is never \<open>null\<close> or \<open>undefined\<close>.
\<close>

theorem descriptive_accessors_throw:
  "getName this = Inl (ReferenceError ''_event is not defined'')
   \<and> getDescription this = Inl (ReferenceError ''_event is not defined'')
   \<and> getAura this = Inl (ReferenceError ''_event is not defined'')
   \<and> read_prop (this_effect (demo_effect demo_behavior (Obj [(''duration'', Num (Fin 1000))]))) ''name''
       = Str ''Haste''
   \<and> nullish (getModifiers this) = False"
proof -
  have s: "symbol ''_event'' = Inl (ReferenceError ''_event is not defined'')"
    by (simp add: symbol_def symbols_def not_defined_def)
  have m: "nullish (getModifiers this) = False"
    by (simp add: getModifiers_def js_or_def truthy_not_nullish)
  show ?thesis using s m by (simp add: getName_def getDescription_def getAura_def)
qed

end
